theory Spec2Isabelle
  imports Complex_Main "HOL-Library.Sublist"
begin

section \<open>Shared modelling conventions\<close>

text \<open>
  Python \<open>str\<close> values are modelled as \<open>string\<close>, \<open>bytes\<close> values as lists of
  characters (one character per byte), Python \<open>int\<close> as \<open>int\<close>.  A Python \<open>dict\<close> is
  an association list in insertion order: assigning to an existing key keeps the
  key's position, assigning to a new key appends it.
\<close>

type_synonym bytes = string

primrec dict_set :: "'k \<Rightarrow> 'v \<Rightarrow> ('k \<times> 'v) list \<Rightarrow> ('k \<times> 'v) list" where
  "dict_set k v [] = [(k, v)]"
| "dict_set k v (p # ps) = (if fst p = k then (k, v) # ps else p # dict_set k v ps)"

definition dict_get :: "('k \<times> 'v) list \<Rightarrow> 'k \<Rightarrow> 'v option" where
  "dict_get d k = map_of d k"

definition dict_has :: "('k \<times> 'v) list \<Rightarrow> 'k \<Rightarrow> bool" where
  "dict_has d k = (k \<in> set (map fst d))"

text \<open>\<open>s.split(sep)[0]\<close> for a one-character separator: the part before its first
  occurrence, the whole string when it does not occur.\<close>

definition split_head :: "char \<Rightarrow> string \<Rightarrow> string" where
  "split_head sep s = takeWhile (\<lambda>c. c \<noteq> sep) s"

section \<open>unified\_dataset.py\<close>

text \<open>
  The dataclass \<open>UnifiedRecord\<close>.  The fields \<open>id\<close> and \<open>chain\<close> carry a prime
  because the plain names are constants of HOL.  The two \<open>float\<close> fields are carried
  as reals; no function modelled here computes with them.
\<close>

record UnifiedRecord =
  id' :: string
  chain' :: string
  chain_id :: string
  content_type :: string
  content_hash :: string
  content_length :: int
  local_path :: string
  block_height :: int
  timestamp :: int
  inscription_number :: int
  collection :: string
  name :: string
  protocol :: string
  is_recursive :: bool
  is_nft :: bool
  is_protocol_data :: bool
  price_usd :: real
  rarity_score :: real

subsection \<open>\<open>UnifiedDatasetGenerator.deduplicate\<close>\<close>

text \<open>The key built by \<open>f"{record.chain}:{record.content_hash}"\<close>.\<close>

definition dedup_key :: "UnifiedRecord \<Rightarrow> string" where
  "dedup_key r = chain' r @ '':'' @ content_hash r"

text \<open>The loop over \<open>self.records\<close>, with its two accumulators \<open>seen\<close> and
  \<open>unique\<close>; \<open>unique.append(record)\<close> adds at the end.\<close>

fun dedup_loop :: "UnifiedRecord list \<Rightarrow> string set \<Rightarrow> UnifiedRecord list \<Rightarrow> UnifiedRecord list" where
  "dedup_loop [] seen unique = unique"
| "dedup_loop (r # rs) seen unique =
     (let key = dedup_key r in
      if key \<notin> seen then dedup_loop rs (insert key seen) (unique @ [r])
      else dedup_loop rs seen unique)"

text \<open>\<open>deduplicate\<close> maps the old value of \<open>self.records\<close> to the new one.\<close>

definition deduplicate :: "UnifiedRecord list \<Rightarrow> UnifiedRecord list" where
  "deduplicate records = dedup_loop records {} []"

subsection \<open>\<open>UnifiedDatasetGenerator.generate_stats\<close>\<close>

text \<open>
  The returned dictionary, without \<open>generated_at\<close> (the wall clock) and
  \<open>total_mb\<close> (a floating-point quotient of \<open>total_bytes\<close>).  An entry of
  \<open>by_chain\<close> is the inner dictionary \<open>{'count': _, 'bytes': _}\<close>.
\<close>

record chain_entry =
  count :: int
  bytes :: int

record stats =
  total_records :: int
  total_bytes :: int
  by_chain :: "(string \<times> chain_entry) list"
  by_content_type :: "(string \<times> int) list"
  nft_count :: int
  protocol_data_count :: int
  recursive_count :: int

text \<open>\<open>d[k][field] += n\<close> on an entry that the preceding guard has created; on
  a missing key Python raises \<open>KeyError\<close>, which the guard excludes, and the model
  leaves the dictionary as it is.\<close>

definition dict_modify :: "'k \<Rightarrow> ('v \<Rightarrow> 'v) \<Rightarrow> ('k \<times> 'v) list \<Rightarrow> ('k \<times> 'v) list" where
  "dict_modify k f d = (case dict_get d k of None \<Rightarrow> d | Some v \<Rightarrow> dict_set k (f v) d)"

definition initial_stats :: "UnifiedRecord list \<Rightarrow> stats" where
  "initial_stats records =
     \<lparr> total_records = int (length records),
       total_bytes = sum_list (map content_length records),
       by_chain = [],
       by_content_type = [],
       nft_count = 0,
       protocol_data_count = 0,
       recursive_count = 0 \<rparr>"

text \<open>One iteration of \<open>for record in self.records\<close>.\<close>

definition stats_step :: "UnifiedRecord \<Rightarrow> stats \<Rightarrow> stats" where
  "stats_step record st =
     (let bc0 = by_chain st;
          bc1 = (if \<not> dict_has bc0 (chain' record)
                 then dict_set (chain' record) \<lparr> count = 0, bytes = 0 \<rparr> bc0 else bc0);
          bc2 = dict_modify (chain' record) (\<lambda>e. e\<lparr> count := count e + 1 \<rparr>) bc1;
          bc3 = dict_modify (chain' record) (\<lambda>e. e\<lparr> bytes := bytes e + content_length record \<rparr>) bc2;
          ct = split_head CHR '';'' (content_type record);
          bt0 = by_content_type st;
          bt1 = (if \<not> dict_has bt0 ct then dict_set ct 0 bt0 else bt0);
          bt2 = dict_modify ct (\<lambda>n. n + 1) bt1
      in st\<lparr> by_chain := bc3,
              by_content_type := bt2,
              nft_count := (if is_nft record then nft_count st + 1 else nft_count st),
              protocol_data_count :=
                (if is_protocol_data record then protocol_data_count st + 1
                 else protocol_data_count st),
              recursive_count :=
                (if is_recursive record then recursive_count st + 1 else recursive_count st) \<rparr>)"

definition generate_stats :: "UnifiedRecord list \<Rightarrow> stats" where
  "generate_stats records = fold stats_step records (initial_stats records)"

text \<open>The dataclass constructor called with its seven required fields; the other
  fields take the defaults the class declares.\<close>

definition new_record ::
  "string \<Rightarrow> string \<Rightarrow> string \<Rightarrow> string \<Rightarrow> string \<Rightarrow> int \<Rightarrow> string \<Rightarrow> UnifiedRecord" where
  "new_record i c cid ctype chash clen path =
     \<lparr> id' = i, chain' = c, chain_id = cid, content_type = ctype, content_hash = chash,
       content_length = clen, local_path = path, block_height = 0, timestamp = 0,
       inscription_number = 0, collection = [], name = [], protocol = [],
       is_recursive = False, is_nft = False, is_protocol_data = False,
       price_usd = 0, rarity_score = 0 \<rparr>"

subsection \<open>Auxiliary functions for the proofs about \<open>deduplicate\<close> and \<open>generate_stats\<close>\<close>

text \<open>The loop of \<open>deduplicate\<close> without the \<open>unique\<close> accumulator.\<close>

fun first_seen :: "string set \<Rightarrow> UnifiedRecord list \<Rightarrow> UnifiedRecord list" where
  "first_seen seen [] = []"
| "first_seen seen (r # rs) =
     (if dedup_key r \<notin> seen then r # first_seen (insert (dedup_key r) seen) rs
      else first_seen seen rs)"

text \<open>The sums over the values of \<open>by_chain\<close> and \<open>by_content_type\<close>.\<close>

definition chain_counts :: "stats \<Rightarrow> int" where
  "chain_counts st = sum_list (map (\<lambda>p. count (snd p)) (by_chain st))"

definition chain_bytes :: "stats \<Rightarrow> int" where
  "chain_bytes st = sum_list (map (\<lambda>p. bytes (snd p)) (by_chain st))"

definition type_counts :: "stats \<Rightarrow> int" where
  "type_counts st = sum_list (map snd (by_content_type st))"

text \<open>Example records: the same content hash on two chains, two hashes on one
  chain, and a later duplicate with more metadata filled in.\<close>

definition rec_bitcoin :: UnifiedRecord where
  "rec_bitcoin = new_record ''id1'' ''bitcoin'' ''i0'' ''image/png'' ''00ff'' 4 ''a.png''"

definition rec_arweave :: UnifiedRecord where
  "rec_arweave = new_record ''id2'' ''arweave'' ''tx0'' ''image/png'' ''00ff'' 4 ''b.png''"

definition rec_bitcoin_other :: UnifiedRecord where
  "rec_bitcoin_other = new_record ''id3'' ''bitcoin'' ''i1'' ''text/plain'' ''1234'' 7 ''c.txt''"

definition rec_bitcoin_rich :: UnifiedRecord where
  "rec_bitcoin_rich = (new_record ''id4'' ''bitcoin'' ''i2'' ''image/png'' ''00ff'' 4 ''d.png'')
     \<lparr> inscription_number := 77, name := ''named'', protocol := ''brc-20'' \<rparr>"

section \<open>prepare\_dataset.py\<close>

subsection \<open>\<open>DatasetPreparer._load_all_metadata\<close>\<close>

text \<open>
  A metadata record is a JSON object.  Only its \<open>'id'\<close> entry is read here:
  \<open>id_entry\<close> is \<open>None\<close> when the key is absent or \<open>null\<close> (both are falsy
  in the test of the loop) and the string otherwise (the collectors write string
  ids); \<open>other_fields\<close> stands for the rest of the object.
\<close>

record 'a metadata =
  id_entry :: "string option"
  other_fields :: 'a

text \<open>What reading and parsing one file of the metadata directory gives:
  an exception (swallowed by \<open>except: pass\<close>), a JSON list, or another JSON value.\<close>

datatype 'a file_content = Unreadable | JsonList "'a metadata list" | JsonOther

text \<open>\<open>needle in haystack\<close> on strings.\<close>

fun str_contains :: "string \<Rightarrow> string \<Rightarrow> bool" where
  "str_contains needle [] = (needle = [])"
| "str_contains needle (c # cs) = (prefix needle (c # cs) \<or> str_contains needle cs)"

text \<open>The first loop: \<open>files\<close> is what \<open>glob("*.json")\<close> yields, in its order,
  each file name with what reading it gives.\<close>

fun load_files :: "(string \<times> 'a file_content) list \<Rightarrow> 'a metadata list \<Rightarrow> 'a metadata list" where
  "load_files [] records = records"
| "load_files ((fname, c) # fs) records =
     (if str_contains ''analysis'' fname \<or> str_contains ''stats'' fname
      then load_files fs records
      else (case c of
              JsonList data \<Rightarrow> load_files fs (records @ data)
            | _ \<Rightarrow> load_files fs records))"

text \<open>\<open>r.get('id', '')\<close>.\<close>

definition get_id :: "'a metadata \<Rightarrow> string" where
  "get_id r = (case id_entry r of None \<Rightarrow> [] | Some s \<Rightarrow> s)"

text \<open>The second loop (``Deduplicate by ID''); a string is truthy when non-empty.\<close>

fun dedup_by_id :: "'a metadata list \<Rightarrow> string set \<Rightarrow> 'a metadata list \<Rightarrow> 'a metadata list" where
  "dedup_by_id [] seen unique = unique"
| "dedup_by_id (r # rs) seen unique =
     (let rid = get_id r in
      if rid \<noteq> [] \<and> rid \<notin> seen then dedup_by_id rs (insert rid seen) (unique @ [r])
      else dedup_by_id rs seen unique)"

definition load_all_metadata :: "(string \<times> 'a file_content) list \<Rightarrow> 'a metadata list" where
  "load_all_metadata files = dedup_by_id (load_files files []) {} []"

subsection \<open>Auxiliary functions for the proofs about \<open>_load_all_metadata\<close>\<close>

text \<open>The second loop without the \<open>unique\<close> accumulator.\<close>

fun first_ids :: "string set \<Rightarrow> 'a metadata list \<Rightarrow> 'a metadata list" where
  "first_ids seen [] = []"
| "first_ids seen (r # rs) =
     (if get_id r \<noteq> [] \<and> get_id r \<notin> seen then r # first_ids (insert (get_id r) seen) rs
      else first_ids seen rs)"

definition skipped_name :: "string \<Rightarrow> bool" where
  "skipped_name fname = (str_contains ''analysis'' fname \<or> str_contains ''stats'' fname)"

text \<open>An example metadata directory: a repeated id, a missing id, an empty id, a
  statistics file that is skipped and a file that holds no list.\<close>

definition example_files :: "(string \<times> nat file_content) list" where
  "example_files =
     [(''a.json'', JsonList [\<lparr> id_entry = Some ''x'', other_fields = 1 \<rparr>,
                            \<lparr> id_entry = None, other_fields = 2 \<rparr>,
                            \<lparr> id_entry = Some ''x'', other_fields = 3 \<rparr>]),
      (''overnight_stats_1.json'', JsonList [\<lparr> id_entry = Some ''y'', other_fields = 7 \<rparr>]),
      (''b.json'', JsonOther),
      (''c.json'', JsonList [\<lparr> id_entry = Some [], other_fields = 4 \<rparr>,
                            \<lparr> id_entry = Some ''z'', other_fields = 5 \<rparr>])]"

section \<open>The environment of the collectors\<close>

text \<open>
  The collectors read the clock, sleep, send HTTP requests and write files.  The
  mutable part of that environment is the record \<open>env\<close>: the clock (seconds), the
  log of requests sent (time of sending and URL, oldest first), the files on disk
  and the log of \<open>write_bytes\<close> calls (path written, oldest first).  Directories
  are not modelled, and \<open>write_bytes\<close> is taken to succeed.

  The remote side is the record \<open>world\<close>.  Its answers may change from one request
  to the next: \<open>respond w n url\<close> is the outcome of the request for \<open>url\<close> when
  \<open>n\<close> requests were sent before it, \<open>latency w n url\<close> the time that request
  takes.  The two listing calls (Hiro's inscription list, Arweave's GraphQL search)
  give \<open>None\<close> when the call raises.  \<open>sha256_hexdigest\<close> stands for
  \<open>hashlib.sha256(_).hexdigest()\<close>, a library function outside the repository.
  Time passes only in \<open>time.sleep\<close> and while a request is under way.
\<close>

datatype http_result = Timeout | ConnectionReset | Response int bytes

record env =
  clock :: real
  requests :: "(real \<times> string) list"
  disk :: "string \<rightharpoonup> bytes"
  file_writes :: "string list"

text \<open>The entries of an inscription as Hiro lists it and the entries of an
  Arweave transaction node; \<open>None\<close> is an absent key, and an absent tag list is
  the empty list.  The field names carry a prefix because several dictionaries
  of the source share their keys.\<close>

record inscription =
  insc_id :: "string option"
  insc_content_type :: "string option"
  insc_number :: "int option"

text \<open>A JSON entry that the source reads with \<open>.get(key, default)\<close> and then
  dereferences: absent, \<open>null\<close> or present.\<close>

datatype 'a entry = Absent | Null | Present 'a

text \<open>
  The declared size \<open>data.size\<close> as \<open>collect_by_type\<close> uses it in
  \<open>size and int(size) > 1_000_000\<close>: \<open>SizeFalsy\<close> is an absent, \<open>null\<close>, empty or
  zero value (the test stops at \<open>size\<close>); \<open>SizeValue n\<close> is a truthy value that
  \<open>int\<close> converts to \<open>n\<close> (the gateway sends a decimal string);
  \<open>SizeMalformed\<close> is a truthy value on which \<open>int\<close> raises.
\<close>

datatype declared_size = SizeFalsy | SizeValue int | SizeMalformed

record tx_data =
  data_size :: declared_size
  data_type :: "string entry"

record tx_block =
  blk_height :: "int option"
  blk_timestamp :: "int option"

record tx =
  tx_id :: "string option"
  tx_tags :: "(string \<times> string) list"
  tx_data :: "tx_data entry"
  tx_block :: "tx_block entry"

record world =
  respond :: "nat \<Rightarrow> string \<Rightarrow> http_result"
  latency :: "nat \<Rightarrow> string \<Rightarrow> real"
  hiro_listing :: "nat \<Rightarrow> string \<Rightarrow> int \<Rightarrow> int \<Rightarrow> inscription list option"
  arweave_search :: "nat \<Rightarrow> string \<Rightarrow> int \<Rightarrow> tx list option"
  sha256_hexdigest :: "bytes \<Rightarrow> string"

datatype py_exception = KeyError | AttributeError | ValueError

text \<open>\<open>time.sleep(d)\<close>.\<close>

definition sleep :: "real \<Rightarrow> 'a env_scheme \<Rightarrow> 'a env_scheme" where
  "sleep d s = s\<lparr> clock := clock s + d \<rparr>"

text \<open>\<open>self.session.get(url, ...)\<close>: the request is logged with the time it is
  sent, the world answers, and the clock advances by the time the request took.\<close>

definition http_get :: "world \<Rightarrow> string \<Rightarrow> 'a env_scheme \<Rightarrow> http_result \<times> 'a env_scheme" where
  "http_get w url s =
     (let n = length (requests s) in
      (respond w n url,
       s\<lparr> requests := requests s @ [(clock s, url)], clock := clock s + latency w n url \<rparr>))"

text \<open>\<open>resp.raise_for_status()\<close> raises on the status codes 400 to 599.\<close>

definition status_ok :: "int \<Rightarrow> bool" where
  "status_ok code = (\<not> (400 \<le> code \<and> code < 600))"

text \<open>\<open>path.write_bytes(content)\<close>.\<close>

definition write_bytes :: "string \<Rightarrow> bytes \<Rightarrow> 'a env_scheme \<Rightarrow> 'a env_scheme" where
  "write_bytes path content s =
     s\<lparr> disk := (disk s)(path \<mapsto> content), file_writes := file_writes s @ [path] \<rparr>"

text \<open>The truth value of an \<open>Optional[bytes]\<close> in \<open>if content:\<close>.\<close>

fun truthy :: "bytes option \<Rightarrow> bool" where
  "truthy None = False"
| "truthy (Some b) = (b \<noteq> [])"

text \<open>\<open>str(n)\<close> for an integer, as the f-strings of the file names use it.\<close>

function str_nat :: "nat \<Rightarrow> string" where
  "str_nat n = (if n < 10 then [''0123456789'' ! n]
                else str_nat (n div 10) @ [''0123456789'' ! (n mod 10)])"
  by pat_completeness auto
termination
  by (relation "measure (\<lambda>n. n)") auto

declare str_nat.simps [simp del]

definition str_int :: "int \<Rightarrow> string" where
  "str_int i = (if i < 0 then ''-'' @ str_nat (nat (- i)) else str_nat (nat i))"

text \<open>\<open>parent / child\<close> of \<open>pathlib\<close> followed by \<open>str\<close>, for a child that is a
  plain relative name.\<close>

definition path_join :: "string \<Rightarrow> string \<Rightarrow> string" where
  "path_join parent child = parent @ ''/'' @ child"

definition DATA_DIR :: string where
  "DATA_DIR = ''/Volumes/Virtual Server/Projects/blockchain-research/data''"

text \<open>\<open>content_type.split('/')[0] if '/' in content_type else 'other'\<close>.\<close>

definition category_of :: "string \<Rightarrow> string" where
  "category_of ctype = (if CHR ''/'' \<in> set ctype then split_head CHR ''/'' ctype else ''other'')"

text \<open>\<open>xs[:n]\<close>: a negative \<open>n\<close> counts from the end.\<close>

definition slice_to :: "int \<Rightarrow> 'a list \<Rightarrow> 'a list" where
  "slice_to n xs = (if 0 \<le> n then take (nat n) xs else take (length xs - nat (- n)) xs)"

section \<open>robust\_collector.py\<close>

definition ORDINALS_DIR :: string where
  "ORDINALS_DIR = path_join DATA_DIR ''ordinals''"

text \<open>An entry of \<open>self.apis\<close>, and the three keys of that dictionary.  The
  dictionary never gains or loses a key, so it is a total function on the keys.\<close>

record api =
  base :: string
  rate_limit :: int
  last_call :: real
  calls_this_minute :: int

datatype api_name = Hiro | Ordiscan | Bestinslot

record collector = env +
  apis :: "api_name \<Rightarrow> api"

text \<open>The table that \<open>MultiAPICollector.__init__\<close> builds.\<close>

fun initial_apis :: "api_name \<Rightarrow> api" where
  "initial_apis Hiro =
     \<lparr> base = ''https://api.hiro.so/ordinals/v1'', rate_limit = 60,
       last_call = 0, calls_this_minute = 0 \<rparr>"
| "initial_apis Ordiscan =
     \<lparr> base = ''https://api.ordiscan.com/v1'', rate_limit = 100,
       last_call = 0, calls_this_minute = 0 \<rparr>"
| "initial_apis Bestinslot =
     \<lparr> base = ''https://api.bestinslot.xyz/v3'', rate_limit = 30,
       last_call = 0, calls_this_minute = 0 \<rparr>"

subsection \<open>\<open>MultiAPICollector._wait_for_rate_limit\<close>\<close>

text \<open>
  \<open>now\<close> is read once at the start; the counter is reset when more than 60 seconds
  have passed since the last call; at the limit the call sleeps for what is left of
  the 60 seconds, if anything, and resets the counter; then the call is counted and
  \<open>last_call\<close> is set to the time after the sleep.  The time at which the function returns is
  the time at which the caller's request is admitted.
\<close>

definition wait_for_rate_limit :: "api_name \<Rightarrow> collector \<Rightarrow> collector" where
  "wait_for_rate_limit api_name s =
     (let api = apis s api_name;
          now = clock s;
          api1 = (if now - last_call api > 60 then api\<lparr> calls_this_minute := 0 \<rparr> else api);
          (api2, s1) =
            (if calls_this_minute api1 \<ge> rate_limit api1 then
               (let wait_time = 60 - (now - last_call api1) in
                if wait_time > 0 then (api1\<lparr> calls_this_minute := 0 \<rparr>, sleep wait_time s)
                else (api1, s))
             else (api1, s));
          api3 = api2\<lparr> calls_this_minute := calls_this_minute api2 + 1 \<rparr>;
          api4 = api3\<lparr> last_call := clock s1 \<rparr>
      in s1\<lparr> apis := (apis s1)(api_name := api4) \<rparr>)"

subsection \<open>The fetch functions\<close>

definition hiro_content_url :: "collector \<Rightarrow> string \<Rightarrow> string" where
  "hiro_content_url s inscription_id =
     base (apis s Hiro) @ ''/inscriptions/'' @ inscription_id @ ''/content''"

definition ordinals_com_url :: "string \<Rightarrow> string" where
  "ordinals_com_url inscription_id = ''https://ordinals.com/content/'' @ inscription_id"

text \<open>What the \<open>try\<close> block of the two content functions returns: the body when
  the request gives a response that \<open>raise_for_status\<close> accepts, \<open>None\<close> when the
  request or \<open>raise_for_status\<close> raises.\<close>

fun content_or_none :: "http_result \<Rightarrow> bytes option" where
  "content_or_none (Response code body) = (if status_ok code then Some body else None)"
| "content_or_none _ = None"

definition fetch_content_hiro :: "world \<Rightarrow> string \<Rightarrow> collector \<Rightarrow> bytes option \<times> collector" where
  "fetch_content_hiro w inscription_id s =
     (let s1 = wait_for_rate_limit Hiro s;
          (r, s2) = http_get w (hiro_content_url s1 inscription_id) s1
      in (content_or_none r, s2))"

definition fetch_content_ordinals_com ::
  "world \<Rightarrow> string \<Rightarrow> collector \<Rightarrow> bytes option \<times> collector" where
  "fetch_content_ordinals_com w inscription_id s =
     (let (r, s1) = http_get w (ordinals_com_url inscription_id) s
      in (content_or_none r, s1))"

definition fetch_with_fallback :: "world \<Rightarrow> string \<Rightarrow> collector \<Rightarrow> bytes option \<times> collector" where
  "fetch_with_fallback w inscription_id s =
     (let (content, s1) = fetch_content_ordinals_com w inscription_id s in
      if truthy content then (content, s1)
      else (let (content2, s2) = fetch_content_hiro w inscription_id s1 in
            if truthy content2 then (content2, s2) else (None, s2)))"

text \<open>\<open>fetch_inscriptions_hiro\<close>: the rate limiter, then the listing request; \<open>None\<close>
  stands for the exception that the function lets through to its caller.\<close>

definition fetch_inscriptions_hiro ::
  "world \<Rightarrow> string \<Rightarrow> int \<Rightarrow> int \<Rightarrow> collector \<Rightarrow> inscription list option \<times> collector" where
  "fetch_inscriptions_hiro w mime_type offset limit s =
     (let s1 = wait_for_rate_limit Hiro s;
          url = base (apis s1 Hiro) @ ''/inscriptions'';
          n = length (requests s1)
      in (hiro_listing w n mime_type offset limit,
          s1\<lparr> requests := requests s1 @ [(clock s1, url)],
               clock := clock s1 + latency w n url \<rparr>))"

subsection \<open>\<open>MultiAPICollector.save_inscription\<close>\<close>

text \<open>The dictionary that \<open>save_inscription\<close> returns.\<close>

record saved_inscription =
  sv_id :: string
  sv_number :: int
  sv_content_type :: string
  sv_content_length :: int
  sv_file_hash :: string
  sv_local_path :: string

definition ext_map_ordinals :: "(string \<times> string) list" where
  "ext_map_ordinals =
     [(''image/png'', ''.png''), (''image/webp'', ''.webp''), (''image/gif'', ''.gif''),
      (''image/jpeg'', ''.jpg''), (''image/svg+xml'', ''.svg''),
      (''text/plain'', ''.txt''), (''text/html'', ''.html''),
      (''application/json'', ''.json''), (''audio/mpeg'', ''.mp3'')]"

definition get_default :: "'a option \<Rightarrow> 'a \<Rightarrow> 'a" where
  "get_default x d = (case x of None \<Rightarrow> d | Some v \<Rightarrow> v)"

definition save_inscription ::
  "world \<Rightarrow> inscription \<Rightarrow> bytes \<Rightarrow> 'a env_scheme \<Rightarrow> saved_inscription \<times> 'a env_scheme" where
  "save_inscription w inscription content s =
     (let ctype = get_default (insc_content_type inscription) ''application/octet-stream'';
          number = get_default (insc_number inscription) 0;
          inscription_id = get_default (insc_id inscription) [];
          ext = get_default (map_of ext_map_ordinals ctype) ''.bin'';
          category_dir = path_join ORDINALS_DIR (category_of ctype);
          file_hash = take 16 (sha256_hexdigest w content);
          filename = str_int number @ ''_'' @ file_hash @ ext;
          filepath = path_join category_dir filename
      in (\<lparr> sv_id = inscription_id, sv_number = number, sv_content_type = ctype,
            sv_content_length = int (length content), sv_file_hash = file_hash,
            sv_local_path = filepath \<rparr>,
          write_bytes filepath content s))"

subsection \<open>\<open>MultiAPICollector.collect\<close>\<close>

text \<open>
  The \<open>for\<close> loop over one page of inscriptions.  \<open>insc['id']\<close> raises \<open>KeyError\<close>
  on an inscription without id; the exception leaves the loop, and the records
  appended so far stay in \<open>records\<close>.
\<close>

fun collect_page ::
  "world \<Rightarrow> inscription list \<Rightarrow> saved_inscription list \<Rightarrow> collector
     \<Rightarrow> py_exception option \<times> saved_inscription list \<times> collector" where
  "collect_page w [] recs s = (None, recs, s)"
| "collect_page w (insc # rest) recs s =
     (case insc_id insc of
        None \<Rightarrow> (Some KeyError, recs, s)
      | Some i \<Rightarrow>
          (let (content, s1) = fetch_with_fallback w i s in
           case content of
             None \<Rightarrow> collect_page w rest recs (sleep (1/2) s1)
           | Some c \<Rightarrow>
               if c \<noteq> [] then
                 (let (record, s2) = save_inscription w insc c s1
                  in collect_page w rest (recs @ [record]) (sleep (1/2) s2))
               else collect_page w rest recs (sleep (1/2) s1)))"

text \<open>
  The \<open>while\<close> loop.  It need not end (a listing that keeps raising is retried
  every five seconds for ever), so the model counts its iterations down from
  \<open>fuel\<close> and gives \<open>None\<close> when they run out.
\<close>

fun collect_loop ::
  "nat \<Rightarrow> world \<Rightarrow> string \<Rightarrow> int \<Rightarrow> int \<Rightarrow> saved_inscription list \<Rightarrow> collector
     \<Rightarrow> (saved_inscription list \<times> collector) option" where
  "collect_loop 0 w mime_type target offset recs s = None"
| "collect_loop (Suc fuel) w mime_type target offset recs s =
     (if \<not> (int (length recs) < target) then Some (recs, s)
      else
        (let (listing, s1) =
               fetch_inscriptions_hiro w mime_type offset (min 20 (target - int (length recs))) s
         in case listing of
              None \<Rightarrow> collect_loop fuel w mime_type target offset recs (sleep 5 s1)
            | Some inscriptions \<Rightarrow>
                if inscriptions = [] then Some (recs, s1)
                else
                  (let (exc, recs1, s2) = collect_page w inscriptions recs s1 in
                   case exc of
                     Some e \<Rightarrow> collect_loop fuel w mime_type target offset recs1 (sleep 5 s2)
                   | None \<Rightarrow>
                       collect_loop fuel w mime_type target
                         (offset + int (length inscriptions)) recs1 s2)))"

definition collect ::
  "nat \<Rightarrow> world \<Rightarrow> string \<Rightarrow> int \<Rightarrow> collector \<Rightarrow> (saved_inscription list \<times> collector) option" where
  "collect fuel w mime_type target s = collect_loop fuel w mime_type target 0 [] s"

section \<open>arweave\_collector.py\<close>

definition ARWEAVE_DIR :: string where
  "ARWEAVE_DIR = path_join DATA_DIR ''arweave''"

text \<open>\<open>self.gateways\<close> and \<open>self.graphql_endpoint\<close>, set once in \<open>__init__\<close>.\<close>

definition gateways :: "string list" where
  "gateways = [''https://arweave.net'', ''https://ar-io.net'', ''https://g8way.io'']"

definition graphql_endpoint :: string where
  "graphql_endpoint = ''https://arweave.net/graphql''"

subsection \<open>\<open>ArweaveCollector.fetch_content\<close>\<close>

text \<open>The loop over the gateways, for any gateway list: a response with status
  200 ends the loop with its body, an exception or another status goes on to
  the next gateway.\<close>

fun fetch_content_loop ::
  "world \<Rightarrow> string list \<Rightarrow> string \<Rightarrow> 'a env_scheme \<Rightarrow> bytes option \<times> 'a env_scheme" where
  "fetch_content_loop w [] txid s = (None, s)"
| "fetch_content_loop w (gateway # rest) txid s =
     (let (r, s1) = http_get w (gateway @ ''/'' @ txid) s in
      case r of
        Response code body \<Rightarrow>
          if code = 200 then (Some body, s1) else fetch_content_loop w rest txid s1
      | _ \<Rightarrow> fetch_content_loop w rest txid s1)"

definition fetch_content :: "world \<Rightarrow> string \<Rightarrow> 'a env_scheme \<Rightarrow> bytes option \<times> 'a env_scheme" where
  "fetch_content w txid s = fetch_content_loop w gateways txid s"

subsection \<open>\<open>ArweaveCollector.save_transaction\<close>\<close>

text \<open>The dictionary that \<open>save_transaction\<close> returns.\<close>

record arweave_record =
  ar_id :: string
  ar_chain :: string
  ar_block_height :: int
  ar_timestamp :: "int option"
  ar_content_type :: string
  ar_content_length :: int
  ar_file_hash :: string
  ar_local_path :: string
  ar_tags :: "(string \<times> string) list"
  ar_app_name :: "string option"

definition ext_map_arweave :: "(string \<times> string) list" where
  "ext_map_arweave =
     [(''image/png'', ''.png''), (''image/webp'', ''.webp''), (''image/gif'', ''.gif''),
      (''image/jpeg'', ''.jpg''), (''image/svg+xml'', ''.svg''),
      (''text/plain'', ''.txt''), (''text/html'', ''.html''),
      (''application/json'', ''.json''), (''audio/mpeg'', ''.mp3''),
      (''video/mp4'', ''.mp4''), (''application/pdf'', ''.pdf'')]"

text \<open>The dictionary comprehension over the tag list: a later tag of the same
  name replaces the value of the earlier one.\<close>

definition tags_dict :: "(string \<times> string) list \<Rightarrow> (string \<times> string) list" where
  "tags_dict ts = foldl (\<lambda>d (k, v). dict_set k v d) [] ts"

text \<open>
  \<open>tx.get('data', {}).get('type', 'application/octet-stream')\<close>, the default that
  Python evaluates before it looks the tag up: \<open>AttributeError\<close> when \<open>data\<close> is
  \<open>null\<close>; otherwise the type, which is itself \<open>None\<close> when the entry is \<open>null\<close>.
\<close>

definition data_type_default :: "tx \<Rightarrow> py_exception + string option" where
  "data_type_default t =
     (case tx_data t of
        Null \<Rightarrow> Inl AttributeError
      | Absent \<Rightarrow> Inr (Some ''application/octet-stream'')
      | Present d \<Rightarrow>
          (case data_type d of
             Absent \<Rightarrow> Inr (Some ''application/octet-stream'')
           | Null \<Rightarrow> Inr None
           | Present ty \<Rightarrow> Inr (Some ty)))"

text \<open>\<open>tx.get('block', {})\<close> followed by \<open>.get(key, default)\<close>.\<close>

definition block_entry :: "tx \<Rightarrow> py_exception + tx_block option" where
  "block_entry t =
     (case tx_block t of
        Null \<Rightarrow> Inl AttributeError
      | Absent \<Rightarrow> Inr None
      | Present b \<Rightarrow> Inr (Some b))"

text \<open>Every exception of \<open>save_transaction\<close> is raised before \<open>write_bytes\<close>, so an
  exceptional result carries no new state.\<close>

definition save_transaction ::
  "world \<Rightarrow> tx \<Rightarrow> bytes \<Rightarrow> 'a env_scheme \<Rightarrow> py_exception + (arweave_record \<times> 'a env_scheme)" where
  "save_transaction w t content s =
     (let txid = get_default (tx_id t) [];
          tags = tags_dict (tx_tags t)
      in case data_type_default t of
           Inl e \<Rightarrow> Inl e
         | Inr dflt \<Rightarrow>
             (case (case dict_get tags ''Content-Type'' of Some v \<Rightarrow> Some v | None \<Rightarrow> dflt) of
                None \<Rightarrow> Inl AttributeError
              | Some ctype \<Rightarrow>
                  (let ext = get_default (map_of ext_map_arweave (split_head CHR '';'' ctype)) ''.bin'';
                       category_dir = path_join ARWEAVE_DIR (category_of ctype);
                       file_hash = take 16 (sha256_hexdigest w content)
                   in case block_entry t of
                        Inl e \<Rightarrow> Inl e
                      | Inr blk \<Rightarrow>
                          (let height = (case blk of None \<Rightarrow> 0 | Some b \<Rightarrow> get_default (blk_height b) 0);
                               filename = str_int height @ ''_'' @ file_hash @ ext;
                               filepath = path_join category_dir filename;
                               s1 = write_bytes filepath content s
                           in Inr (\<lparr> ar_id = txid, ar_chain = ''arweave'',
                                    ar_block_height = height,
                                    ar_timestamp = (case blk of None \<Rightarrow> None | Some b \<Rightarrow> blk_timestamp b),
                                    ar_content_type = ctype,
                                    ar_content_length = int (length content),
                                    ar_file_hash = file_hash,
                                    ar_local_path = filepath,
                                    ar_tags = tags,
                                    ar_app_name = dict_get tags ''App-Name'' \<rparr>, s1)))))"

subsection \<open>\<open>ArweaveCollector.collect_by_type\<close>\<close>

text \<open>\<open>search_by_content_type\<close>: one request to the GraphQL endpoint; \<open>None\<close> stands
  for the exception it lets through.\<close>

definition search_by_content_type ::
  "world \<Rightarrow> string \<Rightarrow> int \<Rightarrow> 'a env_scheme \<Rightarrow> tx list option \<times> 'a env_scheme" where
  "search_by_content_type w ctype limit s =
     (let n = length (requests s) in
      (arweave_search w n ctype limit,
       s\<lparr> requests := requests s @ [(clock s, graphql_endpoint)],
          clock := clock s + latency w n graphql_endpoint \<rparr>))"

text \<open>How one iteration of the \<open>for\<close> loop ends: with \<open>continue\<close> (which skips the
  test after the \<open>try\<close>), normally, or in the \<open>except\<close> clause.\<close>

datatype step_end = Continued | Completed | Caught py_exception

text \<open>
  The body of the \<open>try\<close> in the loop.  \<open>tx.get('data', {}).get('size')\<close> raises
  when \<open>data\<close> is \<open>null\<close>; \<open>int(size)\<close> raises on a malformed size; \<open>tx['id']\<close>
  raises when the id is absent (in the skip message as well as in the fetch).
\<close>

definition collect_tx ::
  "world \<Rightarrow> tx \<Rightarrow> arweave_record list \<Rightarrow> 'a env_scheme
     \<Rightarrow> step_end \<times> arweave_record list \<times> 'a env_scheme" where
  "collect_tx w t recs s =
     (case tx_data t of
        Null \<Rightarrow> (Caught AttributeError, recs, s)
      | _ \<Rightarrow>
        (let sz = (case tx_data t of Present d \<Rightarrow> data_size d | _ \<Rightarrow> SizeFalsy) in
         case sz of
           SizeMalformed \<Rightarrow> (Caught ValueError, recs, s)
         | _ \<Rightarrow>
           if (case sz of SizeValue n \<Rightarrow> n > 1000000 | _ \<Rightarrow> False) then
             (case tx_id t of
                None \<Rightarrow> (Caught KeyError, recs, s)
              | Some i \<Rightarrow> (Continued, recs, s))
           else
             (case tx_id t of
                None \<Rightarrow> (Caught KeyError, recs, s)
              | Some i \<Rightarrow>
                  (let (content, s1) = fetch_content w i s in
                   if truthy content then
                     (case save_transaction w t (get_default content []) s1 of
                        Inl e \<Rightarrow> (Caught e, recs, s1)
                      | Inr (record, s2) \<Rightarrow> (Completed, recs @ [record], sleep (3/10) s2))
                   else (Completed, recs, sleep (3/10) s1)))))"

text \<open>The \<open>for\<close> loop with its \<open>break\<close>.\<close>

fun collect_txs ::
  "world \<Rightarrow> int \<Rightarrow> tx list \<Rightarrow> arweave_record list \<Rightarrow> 'a env_scheme
     \<Rightarrow> arweave_record list \<times> 'a env_scheme" where
  "collect_txs w target [] recs s = (recs, s)"
| "collect_txs w target (t # rest) recs s =
     (let (e, recs1, s1) = collect_tx w t recs s in
      if e = Continued then collect_txs w target rest recs1 s1
      else if int (length recs1) \<ge> target then (recs1, s1)
      else collect_txs w target rest recs1 s1)"

text \<open>An exception of the search is caught by the outer \<open>try\<close>: the function
  returns the empty \<open>records\<close>.\<close>

definition collect_by_type ::
  "world \<Rightarrow> string \<Rightarrow> int \<Rightarrow> 'a env_scheme \<Rightarrow> arweave_record list \<times> 'a env_scheme" where
  "collect_by_type w ctype target s =
     (let (found, s1) = search_by_content_type w ctype (target * 2) s in
      case found of
        None \<Rightarrow> ([], s1)
      | Some transactions \<Rightarrow> collect_txs w target (slice_to target transactions) [] s1)"

section \<open>overnight\_collect.py\<close>

text \<open>
  \<open>OvernightCollector\<close>: the deadline \<open>end_time\<close> and the entries of \<open>self.stats\<close>
  that \<open>collect_bitcoin_ordinals\<close> updates.  \<open>admitted\<close> is not in the source: it
  records, for every call of \<open>collector.collect\<close>, the time of the call and the
  content type, so that admission can be stated.
\<close>

record overnight =
  end_time :: real
  stats_bitcoin_ordinals :: int
  stats_total_bytes :: int
  stats_errors :: "string list"
  admitted :: "(real \<times> string) list"

definition should_continue :: "overnight \<Rightarrow> 'a env_scheme \<Rightarrow> bool" where
  "should_continue oc s = (clock s < end_time oc)"

definition bitcoin_content_types :: "(string \<times> int) list" where
  "bitcoin_content_types =
     [(''image/png'', 20), (''image/webp'', 20), (''image/gif'', 15),
      (''image/svg+xml'', 15), (''text/plain'', 20), (''text/html'', 15),
      (''application/json'', 15), (''audio/mpeg'', 10)]"

text \<open>
  The loop over the content types.  \<open>collect\<close> catches every exception itself, so
  the \<open>except\<close> clause around it is never entered; when \<open>collect\<close> does not return,
  neither does this loop.
\<close>

fun bitcoin_loop ::
  "nat \<Rightarrow> world \<Rightarrow> (string \<times> int) list \<Rightarrow> overnight \<Rightarrow> collector
     \<Rightarrow> (overnight \<times> collector) option" where
  "bitcoin_loop fuel w [] oc s = Some (oc, s)"
| "bitcoin_loop fuel w ((mime_type, target) # rest) oc s =
     (if \<not> should_continue oc s then Some (oc, s)
      else
        (case collect fuel w mime_type target s of
           None \<Rightarrow> None
         | Some (recs, s1) \<Rightarrow>
             bitcoin_loop fuel w rest
               (oc\<lparr> stats_bitcoin_ordinals := stats_bitcoin_ordinals oc + int (length recs),
                    stats_total_bytes :=
                      stats_total_bytes oc + sum_list (map sv_content_length recs),
                    admitted := admitted oc @ [(clock s, mime_type)] \<rparr>)
               (sleep 10 s1)))"

text \<open>\<open>collect_bitcoin_ordinals\<close> starts with a new \<open>MultiAPICollector\<close>.\<close>

definition collect_bitcoin_ordinals ::
  "nat \<Rightarrow> world \<Rightarrow> overnight \<Rightarrow> collector \<Rightarrow> (overnight \<times> collector) option" where
  "collect_bitcoin_ordinals fuel w oc s =
     bitcoin_loop fuel w bitcoin_content_types oc (s\<lparr> apis := initial_apis \<rparr>)"

section \<open>Auxiliary definitions for the properties of the collectors\<close>

text \<open>
  Fallback as the specification words it: the endpoints are tried in declared
  order and the first accepted outcome wins.  \<open>first_accepted\<close> takes the outcomes
  of the endpoints in that order and gives the winning payload together with the
  number of endpoints tried.
\<close>

fun first_accepted :: "(http_result \<Rightarrow> bytes option) \<Rightarrow> http_result list \<Rightarrow> bytes option \<times> nat" where
  "first_accepted accept [] = (None, 0)"
| "first_accepted accept (r # rs) =
     (case accept r of
        Some b \<Rightarrow> (Some b, 1)
      | None \<Rightarrow> (fst (first_accepted accept rs), Suc (snd (first_accepted accept rs))))"

text \<open>The two acceptance tests of the source: a response that \<open>raise_for_status\<close>
  lets pass with a non-empty body, and a response with status 200.\<close>

definition accept_nonempty :: "http_result \<Rightarrow> bytes option" where
  "accept_nonempty r = (if truthy (content_or_none r) then content_or_none r else None)"

fun accept_200 :: "http_result \<Rightarrow> bytes option" where
  "accept_200 (Response code body) = (if code = 200 then Some body else None)"
| "accept_200 _ = None"

text \<open>The outcomes of requests for \<open>urls\<close> sent one after the other when \<open>n\<close>
  requests were sent before.\<close>

fun outcomes :: "world \<Rightarrow> nat \<Rightarrow> string list \<Rightarrow> http_result list" where
  "outcomes w n [] = []"
| "outcomes w n (u # us) = respond w n u # outcomes w (Suc n) us"

definition gateway_urls :: "string list \<Rightarrow> string \<Rightarrow> string list" where
  "gateway_urls gs txid = map (\<lambda>g. g @ ''/'' @ txid) gs"

text \<open>A transaction whose declared size is above the ceiling of
  \<open>collect_by_type\<close>.\<close>

definition oversized :: "tx \<Rightarrow> bool" where
  "oversized t =
     (case tx_data t of
        Present d \<Rightarrow> (case data_size d of SizeValue n \<Rightarrow> n > 1000000 | _ \<Rightarrow> False)
      | _ \<Rightarrow> False)"

subsection \<open>Example environments\<close>

definition env0 :: env where
  "env0 = \<lparr> clock = 1000, requests = [], disk = Map.empty, file_writes = [] \<rparr>"

definition collector0 :: collector where
  "collector0 = \<lparr> clock = 1000, requests = [], disk = Map.empty, file_writes = [],
                  apis = initial_apis \<rparr>"

definition insc_a :: inscription where
  "insc_a = \<lparr> insc_id = Some ''a'', insc_content_type = Some ''image/png'', insc_number = Some 1 \<rparr>"

definition insc_b :: inscription where
  "insc_b = \<lparr> insc_id = Some ''b'', insc_content_type = Some ''image/png'', insc_number = Some 2 \<rparr>"

definition tx_big :: tx where
  "tx_big = \<lparr> tx_id = Some ''t1'', tx_tags = [(''Content-Type'', ''image/png'')],
              tx_data = Present \<lparr> data_size = SizeValue 2000000, data_type = Present ''image/png'' \<rparr>,
              tx_block = Present \<lparr> blk_height = Some 5, blk_timestamp = Some 6 \<rparr> \<rparr>"

definition tx_small :: tx where
  "tx_small = \<lparr> tx_id = Some ''t2'', tx_tags = [(''Content-Type'', ''image/png'')],
                tx_data = Present \<lparr> data_size = SizeValue 1, data_type = Present ''image/png'' \<rparr>,
                tx_block = Present \<lparr> blk_height = Some 5, blk_timestamp = Some 6 \<rparr> \<rparr>"

text \<open>
  A world in which every request is answered at once with status 200 and the
  one-byte body \<open>X\<close>, Hiro lists the inscriptions \<open>a\<close> and \<open>b\<close> and nothing after
  them, and the Arweave search finds one transaction of two million bytes.  The
  only content ever hashed in it is \<open>X\<close>, whose SHA-256 digest the hash field
  returns.
\<close>

definition world_ok :: world where
  "world_ok =
     \<lparr> respond = (\<lambda>n url. Response 200 ''X''),
       latency = (\<lambda>n url. 0),
       hiro_listing = (\<lambda>n mime_type offset limit. if offset = 0 then Some [insc_a, insc_b] else Some []),
       arweave_search = (\<lambda>n ctype limit. Some [tx_big]),
       sha256_hexdigest =
         (\<lambda>b. ''4b68ab3847feda7d6c62c1fbcbeebfa35eab7351ed5e78f4ddadea5df64b8015'') \<rparr>"

text \<open>The same world, but the first endpoint of either collector (ordinals.com,
  arweave.net) times out on every request.\<close>

definition world_first_down :: world where
  "world_first_down =
     world_ok\<lparr> respond :=
       (\<lambda>n url. if prefix ''https://ordinals.com/'' url \<or> prefix ''https://arweave.net/'' url
                 then Timeout else Response 200 ''X'') \<rparr>"

text \<open>The same world, but arweave.net answers with status 200 and an empty body.\<close>

definition world_first_empty :: world where
  "world_first_empty =
     world_ok\<lparr> respond :=
       (\<lambda>n url. if prefix ''https://arweave.net/'' url then Response 200 [] else Response 200 ''X'') \<rparr>"

text \<open>An overnight run whose deadline is a quarter of a second after the start
  of \<open>collector0\<close>.\<close>

definition overnight0 :: overnight where
  "overnight0 = \<lparr> end_time = 1000 + 1/4, stats_bitcoin_ordinals = 0, stats_total_bytes = 0,
                  stats_errors = [], admitted = [] \<rparr>"

section \<open>Properties of unified\_dataset.py\<close>

subsection \<open>Deduplication\<close>

lemma dedup_loop_first_seen: "dedup_loop rs seen unique = unique @ first_seen seen rs"
  by (induction rs arbitrary: seen unique) (simp_all add: Let_def)

lemma deduplicate_first_seen: "deduplicate rs = first_seen {} rs"
  by (simp add: deduplicate_def dedup_loop_first_seen)

lemma first_seen_keys_fresh: "r \<in> set (first_seen seen rs) \<Longrightarrow> dedup_key r \<notin> seen"
  by (induction rs arbitrary: seen) (auto split: if_splits)

lemma first_seen_distinct: "distinct (map dedup_key (first_seen seen rs))"
  by (induction rs arbitrary: seen) (auto dest: first_seen_keys_fresh)

lemma first_seen_subseq: "subseq (first_seen seen rs) rs"
  by (induction rs arbitrary: seen) auto

lemma first_seen_filter:
  "filter (\<lambda>r. dedup_key r = k) (first_seen seen rs) =
     (if k \<in> seen then []
      else case find (\<lambda>r. dedup_key r = k) rs of None \<Rightarrow> [] | Some r \<Rightarrow> [r])"
proof (induction rs arbitrary: seen)
  case Nil
  show ?case by simp
next
  case (Cons r rs)
  show ?case
  proof (cases "dedup_key r \<in> seen")
    case True
    then show ?thesis using Cons.IH [of seen] by auto
  next
    case False
    then show ?thesis using Cons.IH [of "insert (dedup_key r) seen"] by auto
  qed
qed

lemma dedup_key_same_chain:
  "chain' a = chain' b \<Longrightarrow> dedup_key a = dedup_key b \<longleftrightarrow> content_hash a = content_hash b"
  by (simp add: dedup_key_def)

lemma deduplicate_keys_distinct: "distinct (map dedup_key (deduplicate records))"
  by (simp add: deduplicate_first_seen first_seen_distinct)

text \<open>
  C1, as stated, fails: \<open>deduplicate\<close> keys on \<open>chain:content_hash\<close>, so one content
  hash loaded from two chains stays twice.  Here the Bitcoin and the Arweave record
  carry the hash \<open>00ff\<close>, both remain, and they are different records.
\<close>

theorem deduplicate_cross_chain_counterexample:
  "length (deduplicate [rec_bitcoin, rec_arweave]) = 2
   \<and> deduplicate [rec_bitcoin, rec_arweave] ! 0 \<noteq> deduplicate [rec_bitcoin, rec_arweave] ! 1
   \<and> content_hash (deduplicate [rec_bitcoin, rec_arweave] ! 0)
       = content_hash (deduplicate [rec_bitcoin, rec_arweave] ! 1)"
  by (simp add: deduplicate_def dedup_key_def rec_bitcoin_def rec_arweave_def new_record_def)

text \<open>
  C1, amended: after \<open>deduplicate\<close>, any two records at different positions of
  \<open>self.records\<close> that come from the same chain have different content hashes;
  the key is the chain together with the content hash.
\<close>

theorem deduplicate_unique_within_chain:
  assumes "i < length (deduplicate records)" and "j < length (deduplicate records)"
    and "i \<noteq> j"
    and "chain' (deduplicate records ! i) = chain' (deduplicate records ! j)"
  shows "content_hash (deduplicate records ! i) \<noteq> content_hash (deduplicate records ! j)"
proof -
  from assms(1-3) deduplicate_keys_distinct [of records]
  have "dedup_key (deduplicate records ! i) \<noteq> dedup_key (deduplicate records ! j)"
    by (simp add: distinct_conv_nth)
  with assms(4) show ?thesis by (simp add: dedup_key_same_chain)
qed

theorem deduplicate_unique_within_chain_witness:
  "0 < length (deduplicate [rec_bitcoin, rec_arweave, rec_bitcoin_other, rec_bitcoin_rich])
   \<and> 2 < length (deduplicate [rec_bitcoin, rec_arweave, rec_bitcoin_other, rec_bitcoin_rich])
   \<and> chain' (deduplicate [rec_bitcoin, rec_arweave, rec_bitcoin_other, rec_bitcoin_rich] ! 0)
       = chain' (deduplicate [rec_bitcoin, rec_arweave, rec_bitcoin_other, rec_bitcoin_rich] ! 2)
   \<and> content_hash (deduplicate [rec_bitcoin, rec_arweave, rec_bitcoin_other, rec_bitcoin_rich] ! 0)
       \<noteq> content_hash (deduplicate [rec_bitcoin, rec_arweave, rec_bitcoin_other, rec_bitcoin_rich] ! 2)"
proof -
  let ?rs = "[rec_bitcoin, rec_arweave, rec_bitcoin_other, rec_bitcoin_rich]"
  have d: "deduplicate ?rs = [rec_bitcoin, rec_arweave, rec_bitcoin_other]"
    by (simp add: deduplicate_def dedup_key_def rec_bitcoin_def rec_arweave_def
          rec_bitcoin_other_def rec_bitcoin_rich_def new_record_def)
  have c: "chain' (deduplicate ?rs ! 0) = chain' (deduplicate ?rs ! 2)"
    unfolding d by (simp add: rec_bitcoin_def rec_bitcoin_other_def new_record_def)
  have l0: "0 < length (deduplicate ?rs)" and l2: "2 < length (deduplicate ?rs)"
    unfolding d by simp_all
  have "(0::nat) \<noteq> 2" by simp
  from deduplicate_unique_within_chain [OF l0 l2 this c] l0 l2 c show ?thesis by blast
qed

text \<open>
  C5: for every dedup key, \<open>deduplicate\<close> keeps exactly the first record of
  \<open>self.records\<close> that has this key and none of the later ones; the records kept
  are records of the input, unchanged and in load order.
\<close>

theorem deduplicate_first_seen_wins:
  "filter (\<lambda>r. dedup_key r = k) (deduplicate records) =
     (case find (\<lambda>r. dedup_key r = k) records of None \<Rightarrow> [] | Some r \<Rightarrow> [r])
   \<and> subseq (deduplicate records) records"
  by (simp add: deduplicate_first_seen first_seen_filter first_seen_subseq)

theorem deduplicate_first_seen_wins_witness:
  "filter (\<lambda>r. dedup_key r = ''bitcoin:00ff'')
     (deduplicate [rec_bitcoin, rec_arweave, rec_bitcoin_other, rec_bitcoin_rich]) = [rec_bitcoin]
   \<and> rec_bitcoin_rich \<noteq> rec_bitcoin"
  using deduplicate_first_seen_wins
    [of "''bitcoin:00ff''" "[rec_bitcoin, rec_arweave, rec_bitcoin_other, rec_bitcoin_rich]"]
  by (simp add: dedup_key_def rec_bitcoin_def rec_bitcoin_rich_def new_record_def)

subsection \<open>Statistics\<close>

lemma dict_has_map_of: "dict_has d k \<longleftrightarrow> map_of d k \<noteq> None"
  by (simp add: dict_has_def map_of_eq_None_iff)

lemma map_of_dict_set: "map_of (dict_set k v d) = (map_of d)(k \<mapsto> v)"
  by (induction d) (auto simp: fun_eq_iff)

lemma sum_dict_set:
  fixes f :: "'v \<Rightarrow> int"
  shows "sum_list (map (\<lambda>p. f (snd p)) (dict_set k v d)) =
         sum_list (map (\<lambda>p. f (snd p)) d)
           - (case map_of d k of None \<Rightarrow> 0 | Some old \<Rightarrow> f old) + f v"
  by (induction d) auto

lemma sum_dict_modify:
  fixes f :: "'v \<Rightarrow> int"
  assumes "map_of d k = Some old"
  shows "sum_list (map (\<lambda>p. f (snd p)) (dict_modify k g d)) =
         sum_list (map (\<lambda>p. f (snd p)) d) - f old + f (g old)"
  using assms by (simp add: dict_modify_def dict_get_def sum_dict_set)

lemma map_of_dict_modify:
  "map_of d k = Some old \<Longrightarrow> map_of (dict_modify k g d) k = Some (g old)"
  by (simp add: dict_modify_def dict_get_def map_of_dict_set)

lemma ensure_entry:
  "\<exists>e. map_of (if \<not> dict_has d k then dict_set k v d else d) k = Some e
     \<and> sum_list (map (\<lambda>p. f (snd p)) (if \<not> dict_has d k then dict_set k v d else d))
         = sum_list (map (\<lambda>p. f (snd p)) d) + (if dict_has d k then 0 else (f v :: int))"
  by (auto simp: dict_has_map_of map_of_dict_set sum_dict_set)

lemma stats_step_chain_counts: "chain_counts (stats_step r st) = chain_counts st + 1"
proof -
  let ?k = "chain' r"
  let ?bc1 = "if \<not> dict_has (by_chain st) ?k
              then dict_set ?k \<lparr> count = 0, bytes = 0 \<rparr> (by_chain st) else by_chain st"
  obtain e where e: "map_of ?bc1 ?k = Some e"
    and s1: "sum_list (map (\<lambda>p. count (snd p)) ?bc1) = chain_counts st"
    using ensure_entry [of "by_chain st" ?k "\<lparr> count = 0, bytes = 0 \<rparr>" count]
    by (auto simp: chain_counts_def split: if_splits)
  let ?g = "\<lambda>e::chain_entry. e\<lparr> count := count e + 1 \<rparr>"
  let ?bc2 = "dict_modify ?k ?g ?bc1"
  have e2: "map_of ?bc2 ?k = Some (?g e)" using e by (rule map_of_dict_modify)
  have s2: "sum_list (map (\<lambda>p. count (snd p)) ?bc2) = chain_counts st + 1"
    using sum_dict_modify [OF e, of count ?g] s1 by simp
  let ?h = "\<lambda>e::chain_entry. e\<lparr> bytes := bytes e + content_length r \<rparr>"
  have "sum_list (map (\<lambda>p. count (snd p)) (dict_modify ?k ?h ?bc2)) = chain_counts st + 1"
    using sum_dict_modify [OF e2, of count ?h] s2 by simp
  then show ?thesis by (simp add: chain_counts_def stats_step_def Let_def)
qed

lemma stats_step_chain_bytes: "chain_bytes (stats_step r st) = chain_bytes st + content_length r"
proof -
  let ?k = "chain' r"
  let ?bc1 = "if \<not> dict_has (by_chain st) ?k
              then dict_set ?k \<lparr> count = 0, bytes = 0 \<rparr> (by_chain st) else by_chain st"
  obtain e where e: "map_of ?bc1 ?k = Some e"
    and s1: "sum_list (map (\<lambda>p. bytes (snd p)) ?bc1) = chain_bytes st"
    using ensure_entry [of "by_chain st" ?k "\<lparr> count = 0, bytes = 0 \<rparr>" bytes]
    by (auto simp: chain_bytes_def split: if_splits)
  let ?g = "\<lambda>e::chain_entry. e\<lparr> count := count e + 1 \<rparr>"
  let ?bc2 = "dict_modify ?k ?g ?bc1"
  have e2: "map_of ?bc2 ?k = Some (?g e)" using e by (rule map_of_dict_modify)
  have s2: "sum_list (map (\<lambda>p. bytes (snd p)) ?bc2) = chain_bytes st"
    using sum_dict_modify [OF e, of bytes ?g] s1 by simp
  let ?h = "\<lambda>e::chain_entry. e\<lparr> bytes := bytes e + content_length r \<rparr>"
  have "sum_list (map (\<lambda>p. bytes (snd p)) (dict_modify ?k ?h ?bc2))
          = chain_bytes st + content_length r"
    using sum_dict_modify [OF e2, of bytes ?h] s2 by simp
  then show ?thesis by (simp add: chain_bytes_def stats_step_def Let_def)
qed

lemma stats_step_type_counts: "type_counts (stats_step r st) = type_counts st + 1"
proof -
  let ?k = "split_head CHR '';'' (content_type r)"
  let ?bt1 = "if \<not> dict_has (by_content_type st) ?k
              then dict_set ?k 0 (by_content_type st) else by_content_type st"
  obtain e where e: "map_of ?bt1 ?k = Some e"
    and s1: "sum_list (map (\<lambda>p. snd p) ?bt1) = type_counts st"
    using ensure_entry [of "by_content_type st" ?k 0 "\<lambda>n. n"]
    by (auto simp: type_counts_def split: if_splits)
  have "sum_list (map (\<lambda>p. snd p) (dict_modify ?k (\<lambda>n. n + 1) ?bt1)) = type_counts st + 1"
    using sum_dict_modify [OF e, of "\<lambda>n. n" "\<lambda>n. n + 1"] s1 by simp
  then show ?thesis by (simp add: type_counts_def stats_step_def Let_def)
qed

lemma stats_step_totals:
  "total_records (stats_step r st) = total_records st"
  "total_bytes (stats_step r st) = total_bytes st"
  by (simp_all add: stats_step_def Let_def)

lemma fold_stats_step:
  "total_records (fold stats_step rs st) = total_records st
   \<and> total_bytes (fold stats_step rs st) = total_bytes st
   \<and> chain_counts (fold stats_step rs st) = chain_counts st + int (length rs)
   \<and> chain_bytes (fold stats_step rs st) = chain_bytes st + sum_list (map content_length rs)
   \<and> type_counts (fold stats_step rs st) = type_counts st + int (length rs)"
  by (induction rs arbitrary: st)
     (simp_all add: stats_step_totals stats_step_chain_counts stats_step_chain_bytes
        stats_step_type_counts)

lemma keys_dict_set:
  "map fst (dict_set k v d) = (if k \<in> set (map fst d) then map fst d else map fst d @ [k])"
  by (induction d) auto

lemma keys_dict_modify: "map fst (dict_modify k f d) = map fst d"
proof (cases "map_of d k")
  case None
  then show ?thesis by (simp add: dict_modify_def dict_get_def)
next
  case (Some v)
  then have "k \<in> fst ` set d" by (metis map_of_eq_None_iff option.distinct(1))
  with Some show ?thesis by (simp add: dict_modify_def dict_get_def keys_dict_set)
qed

lemma stats_step_keys_distinct:
  assumes "distinct (map fst (by_chain st))" and "distinct (map fst (by_content_type st))"
  shows "distinct (map fst (by_chain (stats_step r st)))"
    and "distinct (map fst (by_content_type (stats_step r st)))"
  using assms
  by (simp_all add: stats_step_def Let_def keys_dict_modify keys_dict_set dict_has_def)

text \<open>The two association lists of the result have no repeated key, as the
  dictionaries they stand for.\<close>

lemma generate_stats_keys_distinct:
  "distinct (map fst (by_chain (generate_stats records)))
   \<and> distinct (map fst (by_content_type (generate_stats records)))"
proof -
  have "distinct (map fst (by_chain (fold stats_step rs st)))
        \<and> distinct (map fst (by_content_type (fold stats_step rs st)))"
    if "distinct (map fst (by_chain st))" and "distinct (map fst (by_content_type st))"
    for rs st
    using that by (induction rs arbitrary: st) (simp_all add: stats_step_keys_distinct)
  from this [of "initial_stats records" records] show ?thesis
    by (simp add: generate_stats_def initial_stats_def)
qed

text \<open>
  C9: in the result of \<open>generate_stats\<close>, \<open>total_records\<close> is the number of records,
  \<open>total_bytes\<close> the sum of their \<open>content_length\<close>; the counts of \<open>by_chain\<close> add up
  to \<open>total_records\<close>, its byte totals to \<open>total_bytes\<close>, and the counts of
  \<open>by_content_type\<close> to \<open>total_records\<close>.
\<close>

theorem generate_stats_consistent:
  "total_records (generate_stats records) = int (length records)
   \<and> total_bytes (generate_stats records) = sum_list (map content_length records)
   \<and> sum_list (map (\<lambda>p. count (snd p)) (by_chain (generate_stats records)))
       = total_records (generate_stats records)
   \<and> sum_list (map (\<lambda>p. bytes (snd p)) (by_chain (generate_stats records)))
       = total_bytes (generate_stats records)
   \<and> sum_list (map snd (by_content_type (generate_stats records)))
       = total_records (generate_stats records)"
  using fold_stats_step [of records "initial_stats records"]
  by (simp add: generate_stats_def chain_counts_def chain_bytes_def type_counts_def
        initial_stats_def)

section \<open>Properties of prepare\_dataset.py\<close>

lemma dedup_by_id_first_ids: "dedup_by_id rs seen unique = unique @ first_ids seen rs"
  by (induction rs arbitrary: seen unique) (simp_all add: Let_def)

lemma first_ids_fresh:
  "r \<in> set (first_ids seen rs) \<Longrightarrow> get_id r \<noteq> [] \<and> get_id r \<notin> seen \<and> r \<in> set rs"
  by (induction rs arbitrary: seen) (auto split: if_splits)

lemma first_ids_distinct: "distinct (map get_id (first_ids seen rs))"
  by (induction rs arbitrary: seen) (auto dest: first_ids_fresh)

lemma first_ids_subseq: "subseq (first_ids seen rs) rs"
  by (induction rs arbitrary: seen) auto

lemma first_ids_filter:
  "k \<noteq> [] \<Longrightarrow> filter (\<lambda>r. get_id r = k) (first_ids seen rs) =
     (if k \<in> seen then []
      else case find (\<lambda>r. get_id r = k) rs of None \<Rightarrow> [] | Some r \<Rightarrow> [r])"
proof (induction rs arbitrary: seen)
  case Nil
  show ?case by simp
next
  case (Cons r rs)
  show ?case
  proof (cases "get_id r \<noteq> [] \<and> get_id r \<notin> seen")
    case True
    then show ?thesis using Cons.IH [of "insert (get_id r) seen"] Cons.prems by auto
  next
    case False
    then show ?thesis using Cons.IH [of seen] Cons.prems by auto
  qed
qed

lemma get_id_nonempty: "get_id r \<noteq> [] \<longleftrightarrow> (\<exists>s. id_entry r = Some s \<and> s \<noteq> [])"
  by (auto simp: get_id_def split: option.splits)

text \<open>The first loop concatenates, in glob order, the lists of the files whose
  name is not skipped.\<close>

lemma load_files_concat:
  "load_files files acc =
     acc @ concat (map (\<lambda>(fname, c). case c of JsonList d \<Rightarrow> d | _ \<Rightarrow> [])
                     (filter (\<lambda>(fname, c). \<not> skipped_name fname) files))"
  by (induction files acc rule: load_files.induct)
     (auto simp: skipped_name_def split: file_content.splits)

text \<open>
  C10: every record returned by \<open>_load_all_metadata\<close> has a non-empty \<open>'id'\<close>; no
  two returned records share an id; the result is a subsequence of the loaded
  records that holds, for each non-empty id, exactly the first loaded record with
  that id; a loaded record whose \<open>'id'\<close> is missing or empty is not returned.  The
  key is the id alone.
\<close>

theorem load_all_metadata_first_id_wins:
  fixes files :: "(string \<times> 'a file_content) list"
  defines "loaded \<equiv> load_files files []"
  defines "out \<equiv> load_all_metadata files"
  shows "(\<forall>r \<in> set out. \<exists>s. id_entry r = Some s \<and> s \<noteq> [])
       \<and> distinct (map get_id out)
       \<and> subseq out loaded
       \<and> (\<forall>k. k \<noteq> [] \<longrightarrow> filter (\<lambda>r. get_id r = k) out =
              (case find (\<lambda>r. get_id r = k) loaded of None \<Rightarrow> [] | Some r \<Rightarrow> [r]))
       \<and> (\<forall>r \<in> set loaded. id_entry r = None \<or> id_entry r = Some [] \<longrightarrow> r \<notin> set out)"
proof -
  have out: "out = first_ids {} loaded"
    by (simp add: out_def loaded_def load_all_metadata_def dedup_by_id_first_ids)
  have 1: "\<forall>r \<in> set out. \<exists>s. id_entry r = Some s \<and> s \<noteq> []"
    unfolding out using first_ids_fresh [of _ "{}" loaded] get_id_nonempty by blast
  have 2: "distinct (map get_id out)" unfolding out by (rule first_ids_distinct)
  have 3: "subseq out loaded" unfolding out by (rule first_ids_subseq)
  have 4: "\<forall>k. k \<noteq> [] \<longrightarrow> filter (\<lambda>r. get_id r = k) out =
              (case find (\<lambda>r. get_id r = k) loaded of None \<Rightarrow> [] | Some r \<Rightarrow> [r])"
    unfolding out by (simp add: first_ids_filter)
  have 5: "\<forall>r \<in> set loaded. id_entry r = None \<or> id_entry r = Some [] \<longrightarrow> r \<notin> set out"
    using 1 by auto
  from 1 2 3 4 5 show ?thesis by blast
qed

theorem load_all_metadata_first_id_wins_witness:
  "\<lparr> id_entry = Some ''x'', other_fields = 1 \<rparr> \<in> set (load_all_metadata example_files)
   \<and> (\<exists>s. id_entry \<lparr> id_entry = Some ''x'', other_fields = 1::nat \<rparr> = Some s \<and> s \<noteq> [])
   \<and> ''x'' \<noteq> []
   \<and> filter (\<lambda>r. get_id r = ''x'') (load_all_metadata example_files)
        = [\<lparr> id_entry = Some ''x'', other_fields = 1 \<rparr>]
   \<and> \<lparr> id_entry = None, other_fields = 2 \<rparr> \<in> set (load_files example_files [])
   \<and> \<lparr> id_entry = None, other_fields = 2 \<rparr> \<notin> set (load_all_metadata example_files)"
proof -
  have loaded: "load_files example_files [] =
      [\<lparr> id_entry = Some ''x'', other_fields = 1 \<rparr>, \<lparr> id_entry = None, other_fields = 2 \<rparr>,
       \<lparr> id_entry = Some ''x'', other_fields = 3 \<rparr>, \<lparr> id_entry = Some [], other_fields = 4 \<rparr>,
       \<lparr> id_entry = Some ''z'', other_fields = 5 \<rparr>]"
    by (simp add: example_files_def)
  have out: "load_all_metadata example_files =
      [\<lparr> id_entry = Some ''x'', other_fields = 1 \<rparr>, \<lparr> id_entry = Some ''z'', other_fields = 5 \<rparr>]"
    by (simp add: load_all_metadata_def loaded get_id_def)
  have mem: "\<lparr> id_entry = Some ''x'', other_fields = 1 \<rparr> \<in> set (load_all_metadata example_files)"
    by (simp add: out)
  have mem2: "\<lparr> id_entry = None, other_fields = 2 \<rparr> \<in> set (load_files example_files [])"
    by (simp add: loaded)
  have find: "find (\<lambda>r. get_id r = ''x'') (load_files example_files [])
      = Some \<lparr> id_entry = Some ''x'', other_fields = 1 \<rparr>"
    by (simp add: loaded get_id_def)
  from load_all_metadata_first_id_wins [of example_files] mem mem2 find
  show ?thesis by auto
qed

section \<open>Properties of the rate limiter\<close>

lemma wait_rate_limit_same [simp]:
  "rate_limit (apis (wait_for_rate_limit a s) a) = rate_limit (apis s a)"
  by (simp add: wait_for_rate_limit_def Let_def sleep_def split: prod.splits if_splits)

lemma wait_last_call [simp]:
  "last_call (apis (wait_for_rate_limit a s) a) = clock (wait_for_rate_limit a s)"
  by (simp add: wait_for_rate_limit_def Let_def sleep_def split: prod.splits if_splits)

lemma wait_clock_mono: "clock s \<le> clock (wait_for_rate_limit a s)"
  by (auto simp add: wait_for_rate_limit_def Let_def sleep_def split: prod.splits if_splits)

lemma wait_calls_pos:
  "0 \<le> calls_this_minute (apis s a) \<Longrightarrow> 1 \<le> calls_this_minute (apis (wait_for_rate_limit a s) a)"
  by (auto simp add: wait_for_rate_limit_def Let_def sleep_def split: prod.splits if_splits)

lemma wait_at_limit:
  assumes "last_call (apis s a) = clock s"
    and "rate_limit (apis s a) \<le> calls_this_minute (apis s a)"
  shows "clock (wait_for_rate_limit a s) = clock s + 60"
    and "calls_this_minute (apis (wait_for_rate_limit a s) a) = 1"
  using assms by (auto simp add: wait_for_rate_limit_def Let_def sleep_def split: prod.splits if_splits)

lemma wait_below_limit:
  assumes "last_call (apis s a) = clock s"
    and "calls_this_minute (apis s a) < rate_limit (apis s a)"
  shows "clock (wait_for_rate_limit a s) = clock s"
    and "calls_this_minute (apis (wait_for_rate_limit a s) a) = calls_this_minute (apis s a) + 1"
  using assms by (auto simp add: wait_for_rate_limit_def Let_def sleep_def split: prod.splits if_splits)

lemma funpow_clock_mono: "clock s \<le> clock ((wait_for_rate_limit a ^^ m) s)"
proof (induction m)
  case 0 show ?case by simp
next
  case (Suc m)
  have "clock ((wait_for_rate_limit a ^^ m) s) \<le> clock (wait_for_rate_limit a ((wait_for_rate_limit a ^^ m) s))"
    by (rule wait_clock_mono)
  with Suc show ?case by simp
qed

lemma burst_after_first:
  assumes "last_call (apis s a) = clock s"
    and "1 \<le> calls_this_minute (apis s a)"
    and "rate_limit (apis s a) < calls_this_minute (apis s a) + int m"
    and "1 \<le> m"
  shows "clock s + 60 \<le> clock ((wait_for_rate_limit a ^^ m) s)"
  using assms
proof (induction m arbitrary: s)
  case 0
  then show ?case by simp
next
  case (Suc m)
  let ?s1 = "wait_for_rate_limit a s"
  have pow: "(wait_for_rate_limit a ^^ Suc m) s = (wait_for_rate_limit a ^^ m) ?s1"
    by (simp add: funpow_swap1)
  show ?case
  proof (cases "rate_limit (apis s a) \<le> calls_this_minute (apis s a)")
    case True
    from wait_at_limit(1) [OF Suc.prems(1) True] funpow_clock_mono [where s = ?s1 and a = a and m = m]
    show ?thesis unfolding pow by simp
  next
    case False
    then have lt: "calls_this_minute (apis s a) < rate_limit (apis s a)" by simp
    note st = wait_below_limit [OF Suc.prems(1) lt]
    have "clock ?s1 + 60 \<le> clock ((wait_for_rate_limit a ^^ m) ?s1)"
    proof (rule Suc.IH)
      show "last_call (apis ?s1 a) = clock ?s1" by simp
      show "1 \<le> calls_this_minute (apis ?s1 a)" using st(2) Suc.prems(2) by simp
      show "rate_limit (apis ?s1 a) < calls_this_minute (apis ?s1 a) + int m"
        using st(2) Suc.prems(3) by simp
      show "1 \<le> m" using lt Suc.prems(3) Suc.prems(2) by (cases m) auto
    qed
    then show ?thesis unfolding pow using st(1) by simp
  qed
qed

text \<open>
  C3: let an API of the collector have the rate limit \<open>N \<ge> 1\<close> (the three
  configured APIs have 60, 100 and 30) and a counter that is not negative, and let
  \<open>N + 1\<close> calls of \<open>_wait_for_rate_limit\<close> for it follow one another with no time
  passing between them.  Then call \<open>N + 1\<close> returns, that is, request \<open>N + 1\<close> is
  admitted, no earlier than 60 seconds (the whole window) after the burst began.
\<close>

theorem rate_limiter_burst:
  assumes "1 \<le> rate_limit (apis s a)" and "0 \<le> calls_this_minute (apis s a)"
  shows "clock s + 60 \<le> clock ((wait_for_rate_limit a ^^ (nat (rate_limit (apis s a)) + 1)) s)"
proof -
  let ?n = "nat (rate_limit (apis s a))"
  let ?s1 = "wait_for_rate_limit a s"
  have pow: "(wait_for_rate_limit a ^^ (?n + 1)) s = (wait_for_rate_limit a ^^ ?n) ?s1"
    by (simp add: funpow_swap1)
  have "clock ?s1 + 60 \<le> clock ((wait_for_rate_limit a ^^ ?n) ?s1)"
  proof (rule burst_after_first)
    show "last_call (apis ?s1 a) = clock ?s1" by simp
    show "1 \<le> calls_this_minute (apis ?s1 a)" using assms(2) by (rule wait_calls_pos)
    then show "rate_limit (apis ?s1 a) < calls_this_minute (apis ?s1 a) + int ?n"
      using assms(1) by simp
    show "1 \<le> ?n" using assms(1) by simp
  qed
  with wait_clock_mono [where s = s and a = a] show ?thesis unfolding pow by simp
qed


theorem rate_limiter_burst_witness:
  "1 \<le> rate_limit (apis collector0 Hiro) \<and> 0 \<le> calls_this_minute (apis collector0 Hiro)
   \<and> clock collector0 + 60 \<le> clock ((wait_for_rate_limit Hiro ^^ 61) collector0)"
  using rate_limiter_burst [of collector0 Hiro] by (simp add: collector0_def)

text \<open>For a collector whose counter is zero the bound is exact: the first \<open>N\<close>
  calls return at once, call \<open>N + 1\<close> exactly 60 seconds later.\<close>

lemma wait_from_zero:
  assumes "calls_this_minute (apis s a) = 0" and "1 \<le> rate_limit (apis s a)"
  shows "clock (wait_for_rate_limit a s) = clock s"
    and "calls_this_minute (apis (wait_for_rate_limit a s) a) = 1"
  using assms by (auto simp add: wait_for_rate_limit_def Let_def sleep_def split: prod.splits if_splits)

lemma burst_below_limit:
  assumes "last_call (apis s a) = clock s"
    and "calls_this_minute (apis s a) + int m \<le> rate_limit (apis s a)"
  shows "clock ((wait_for_rate_limit a ^^ m) s) = clock s
       \<and> last_call (apis ((wait_for_rate_limit a ^^ m) s) a) = clock s
       \<and> calls_this_minute (apis ((wait_for_rate_limit a ^^ m) s) a)
           = calls_this_minute (apis s a) + int m
       \<and> rate_limit (apis ((wait_for_rate_limit a ^^ m) s) a) = rate_limit (apis s a)"
  using assms
proof (induction m)
  case 0
  then show ?case by simp
next
  case (Suc m)
  let ?sm = "(wait_for_rate_limit a ^^ m) s"
  from Suc have ih: "clock ?sm = clock s" "last_call (apis ?sm a) = clock s"
    "calls_this_minute (apis ?sm a) = calls_this_minute (apis s a) + int m"
    "rate_limit (apis ?sm a) = rate_limit (apis s a)"
    by simp_all
  have lc: "last_call (apis ?sm a) = clock ?sm" using ih by simp
  have lt: "calls_this_minute (apis ?sm a) < rate_limit (apis ?sm a)"
    using ih Suc.prems(2) by simp
  from wait_below_limit [OF lc lt] ih show ?case by simp
qed

lemma fresh_burst:
  assumes "1 \<le> rate_limit (apis s a)" and "calls_this_minute (apis s a) = 0"
  shows "k \<le> nat (rate_limit (apis s a)) \<Longrightarrow> clock ((wait_for_rate_limit a ^^ k) s) = clock s"
    and "clock ((wait_for_rate_limit a ^^ (nat (rate_limit (apis s a)) + 1)) s) = clock s + 60"
proof -
  let ?s1 = "wait_for_rate_limit a s"
  note z = wait_from_zero [OF assms(2) assms(1)]
  have lc: "last_call (apis ?s1 a) = clock ?s1" by simp
  have after: "clock ((wait_for_rate_limit a ^^ m) ?s1) = clock s
       \<and> last_call (apis ((wait_for_rate_limit a ^^ m) ?s1) a) = clock s
       \<and> calls_this_minute (apis ((wait_for_rate_limit a ^^ m) ?s1) a) = 1 + int m
       \<and> rate_limit (apis ((wait_for_rate_limit a ^^ m) ?s1) a) = rate_limit (apis s a)"
    if "1 + int m \<le> rate_limit (apis s a)" for m
    using burst_below_limit [OF lc, of m] that z by simp
  show "clock ((wait_for_rate_limit a ^^ k) s) = clock s" if "k \<le> nat (rate_limit (apis s a))"
  proof (cases k)
    case 0
    then show ?thesis by simp
  next
    case (Suc m)
    then have "1 + int m \<le> rate_limit (apis s a)" using that by simp
    from after [OF this] show ?thesis unfolding Suc by (simp add: funpow_swap1)
  qed
  let ?n = "nat (rate_limit (apis s a))"
  obtain m where m: "?n = Suc m" using assms(1) by (cases ?n) auto
  then have "1 + int m \<le> rate_limit (apis s a)" by simp
  note st = after [OF this]
  let ?sn = "(wait_for_rate_limit a ^^ m) ?s1"
  have lcn: "last_call (apis ?sn a) = clock ?sn" using st by simp
  have lim: "rate_limit (apis ?sn a) \<le> calls_this_minute (apis ?sn a)" using st m by simp
  have "(wait_for_rate_limit a ^^ (?n + 1)) s = wait_for_rate_limit a ?sn"
    unfolding m by (simp add: funpow_swap1)
  with wait_at_limit(1) [OF lcn lim] st
  show "clock ((wait_for_rate_limit a ^^ (?n + 1)) s) = clock s + 60" by simp
qed


section \<open>Properties of the fetch functions\<close>

lemma requests_wait [simp]: "requests (wait_for_rate_limit a s) = requests s"
  by (simp add: wait_for_rate_limit_def Let_def sleep_def split: prod.splits if_splits)

lemma base_wait [simp]: "base (apis (wait_for_rate_limit a s) b) = base (apis s b)"
  by (simp add: wait_for_rate_limit_def Let_def sleep_def split: prod.splits if_splits)

lemma hiro_url_wait [simp]: "hiro_content_url (wait_for_rate_limit a s) i = hiro_content_url s i"
  by (simp add: hiro_content_url_def)

lemma requests_http_get [simp]:
  "requests (snd (http_get w url s)) = requests s @ [(clock s, url)]"
  by (simp add: http_get_def Let_def)

lemma fst_http_get [simp]: "fst (http_get w url s) = respond w (length (requests s)) url"
  by (simp add: http_get_def Let_def)

lemma base_http_get [simp]: "apis (snd (http_get w url s)) = apis s"
  by (simp add: http_get_def Let_def)

lemma fetch_ordinals_char:
  "fst (fetch_content_ordinals_com w i s)
     = content_or_none (respond w (length (requests s)) (ordinals_com_url i))"
  "requests (snd (fetch_content_ordinals_com w i s)) = requests s @ [(clock s, ordinals_com_url i)]"
  "apis (snd (fetch_content_ordinals_com w i s)) = apis s"
  by (simp_all add: fetch_content_ordinals_com_def split_beta Let_def)

lemma fetch_hiro_char:
  "fst (fetch_content_hiro w i s)
     = content_or_none (respond w (length (requests s)) (hiro_content_url s i))"
  "requests (snd (fetch_content_hiro w i s))
     = requests s @ [(clock (wait_for_rate_limit Hiro s), hiro_content_url s i)]"
  by (simp_all add: fetch_content_hiro_def split_beta Let_def)

lemma hiro_url_ordinals [simp]:
  "hiro_content_url (snd (fetch_content_ordinals_com w i s)) j = hiro_content_url s j"
  by (simp add: hiro_content_url_def fetch_ordinals_char)

lemma fetch_with_fallback_char:
  "fst (fetch_with_fallback w i s)
     = fst (first_accepted accept_nonempty
              (outcomes w (length (requests s)) [ordinals_com_url i, hiro_content_url s i]))"
  "map snd (requests (snd (fetch_with_fallback w i s)))
     = map snd (requests s)
       @ take (snd (first_accepted accept_nonempty
                 (outcomes w (length (requests s)) [ordinals_com_url i, hiro_content_url s i])))
           [ordinals_com_url i, hiro_content_url s i]"
  by (auto simp add: fetch_with_fallback_def split_beta Let_def fetch_ordinals_char
        fetch_hiro_char accept_nonempty_def split: option.splits)

lemma fetch_content_loop_char:
  "fst (fetch_content_loop w gs i s)
     = fst (first_accepted accept_200 (outcomes w (length (requests s)) (gateway_urls gs i)))
   \<and> map snd (requests (snd (fetch_content_loop w gs i s)))
     = map snd (requests s)
       @ take (snd (first_accepted accept_200 (outcomes w (length (requests s)) (gateway_urls gs i))))
           (gateway_urls gs i)"
proof (induction gs arbitrary: s)
  case Nil
  show ?case by (simp add: gateway_urls_def)
next
  case (Cons g gs)
  let ?s1 = "snd (http_get w (g @ ''/'' @ i) s)"
  have len: "length (requests ?s1) = Suc (length (requests s))" by simp
  show ?case
  proof (cases "accept_200 (respond w (length (requests s)) (g @ ''/'' @ i))")
    case (Some b)
    then show ?thesis
      by (auto simp add: gateway_urls_def split_beta Let_def split: http_result.splits if_splits)
  next
    case None
    then have step: "fetch_content_loop w (g # gs) i s = fetch_content_loop w gs i ?s1"
      by (auto simp add: split_beta Let_def split: http_result.splits if_splits)
    show ?thesis
      using Cons.IH [of ?s1] None unfolding step len
      by (simp add: gateway_urls_def)
  qed
qed

subsection \<open>Fallback order\<close>

text \<open>
  C4, amended: the endpoints are tried in their declared order and the first
  accepted outcome is the result; an endpoint that raises, times out or is not
  accepted is passed over for the next one, and no endpoint after the accepted one
  is tried.  \<open>fetch_with_fallback\<close> (ordinals.com, then Hiro) accepts a response
  that \<open>raise_for_status\<close> lets pass and whose body is not empty.
  \<open>ArweaveCollector.fetch_content\<close> accepts a response with status 200, whether
  its body is empty or not.
\<close>

theorem fallback_order:
  "fst (fetch_with_fallback w i s)
     = fst (first_accepted accept_nonempty
              (outcomes w (length (requests s)) [ordinals_com_url i, hiro_content_url s i]))
   \<and> map snd (requests (snd (fetch_with_fallback w i s)))
     = map snd (requests s)
       @ take (snd (first_accepted accept_nonempty
                 (outcomes w (length (requests s)) [ordinals_com_url i, hiro_content_url s i])))
           [ordinals_com_url i, hiro_content_url s i]
   \<and> fst (fetch_content_loop w gs txid e)
     = fst (first_accepted accept_200 (outcomes w (length (requests e)) (gateway_urls gs txid)))
   \<and> map snd (requests (snd (fetch_content_loop w gs txid e)))
     = map snd (requests e)
       @ take (snd (first_accepted accept_200
                 (outcomes w (length (requests e)) (gateway_urls gs txid))))
           (gateway_urls gs txid)"
  using fetch_with_fallback_char [of w i s] fetch_content_loop_char [of w gs txid e] by simp

lemma fetch_with_fallback_extends:
  "\<exists>new. requests (snd (fetch_with_fallback w i s)) = requests s @ new"
  by (simp add: fetch_with_fallback_def split_beta Let_def fetch_ordinals_char fetch_hiro_char)

lemma fetch_content_loop_extends:
  "\<exists>new. requests (snd (fetch_content_loop w gs i s)) = requests s @ new"
proof (induction gs arbitrary: s)
  case Nil
  show ?case by simp
next
  case (Cons g gs)
  let ?s1 = "snd (http_get w (g @ ''/'' @ i) s)"
  from Cons.IH [of ?s1] obtain new
    where "requests (snd (fetch_content_loop w gs i ?s1)) = requests s @ (clock s, g @ ''/'' @ i) # new"
    by auto
  then show ?case
    by (auto simp add: split_beta Let_def split: http_result.splits)
qed

lemma world_first_down_latency [simp]: "latency world_first_down n url = 0"
  by (simp add: world_first_down_def world_ok_def)


lemma world_first_down_respond: "respond world_first_down n url =
   (if prefix ''https://ordinals.com/'' url \<or> prefix ''https://arweave.net/'' url
                 then Timeout else Response 200 ''X'')"
  by (simp add: world_first_down_def world_ok_def)

text \<open>With a first endpoint that always times out and a second that always
  succeeds, both collectors resolve by the second, the first being tried first.\<close>

theorem fallback_order_witness:
  "fst (fetch_with_fallback world_first_down ''a'' collector0) = Some ''X''
   \<and> map snd (requests (snd (fetch_with_fallback world_first_down ''a'' collector0)))
       = [''https://ordinals.com/content/a'',
          ''https://api.hiro.so/ordinals/v1/inscriptions/a/content'']
   \<and> fst (fetch_content world_first_down ''t2'' env0) = Some ''X''
   \<and> map snd (requests (snd (fetch_content world_first_down ''t2'' env0)))
       = [''https://arweave.net/t2'', ''https://ar-io.net/t2'']"
  using fallback_order [where w = world_first_down and i = "''a''" and s = collector0
      and gs = gateways and txid = "''t2''" and e = env0]
  by (simp add: fetch_content_def gateways_def gateway_urls_def world_first_down_respond collector0_def env0_def
        ordinals_com_url_def hiro_content_url_def accept_nonempty_def status_ok_def)

text \<open>
  C4, as stated, fails for \<open>ArweaveCollector.fetch_content\<close>: when arweave.net
  answers 200 with an empty body, that empty body is the result and ar-io.net,
  which would have answered 200 with the body \<open>X\<close>, is never tried.
\<close>

theorem fallback_empty_body_counterexample:
  "fst (fetch_content world_first_empty ''t2'' env0) = Some []
   \<and> map snd (requests (snd (fetch_content world_first_empty ''t2'' env0)))
       = [''https://arweave.net/t2'']
   \<and> respond world_first_empty 1 ''https://ar-io.net/t2'' = Response 200 ''X''"
  by (simp add: fetch_content_def gateways_def world_first_empty_def world_ok_def env0_def
        http_get_def Let_def)

subsection \<open>No retry\<close>

text \<open>
  C6, amended: no fetch is retried on the same endpoint.  The requests that one
  call of \<open>fetch_with_fallback\<close> or of \<open>ArweaveCollector.fetch_content\<close> sends
  are an initial segment of the declared endpoint list: every endpoint is tried
  at most once, and a failure of any kind leads straight to the next endpoint.
\<close>

theorem no_retry:
  "(\<exists>new. requests (snd (fetch_with_fallback w i s)) = requests s @ new
       \<and> prefix (map snd new) [ordinals_com_url i, hiro_content_url s i])
   \<and> (\<exists>new. requests (snd (fetch_content_loop w gs txid e)) = requests e @ new
       \<and> prefix (map snd new) (gateway_urls gs txid))"
proof -
  obtain new where new: "requests (snd (fetch_with_fallback w i s)) = requests s @ new"
    using fetch_with_fallback_extends by blast
  with fetch_with_fallback_char(2) [of w i s]
  have "prefix (map snd new) [ordinals_com_url i, hiro_content_url s i]"
    by (simp add: take_is_prefix)
  with new have 1: "\<exists>new. requests (snd (fetch_with_fallback w i s)) = requests s @ new
       \<and> prefix (map snd new) [ordinals_com_url i, hiro_content_url s i]" by blast
  obtain new' where new': "requests (snd (fetch_content_loop w gs txid e)) = requests e @ new'"
    using fetch_content_loop_extends by blast
  with fetch_content_loop_char [of w gs txid e]
  have "prefix (map snd new') (gateway_urls gs txid)"
    by (simp add: take_is_prefix)
  with new' have 2: "\<exists>new. requests (snd (fetch_content_loop w gs txid e)) = requests e @ new
       \<and> prefix (map snd new) (gateway_urls gs txid)" by blast
  from 1 2 show ?thesis by blast
qed

text \<open>
  C6, as stated, fails: ordinals.com times out, is tried exactly once, and the
  next request goes to Hiro, with no delay in between.
\<close>

theorem no_retry_counterexample:
  "respond world_first_down 0 (ordinals_com_url ''a'') = Timeout
   \<and> map snd (requests (snd (fetch_with_fallback world_first_down ''a'' collector0)))
       = [ordinals_com_url ''a'', hiro_content_url collector0 ''a'']
   \<and> clock (snd (fetch_with_fallback world_first_down ''a'' collector0)) = clock collector0"
  by (simp add: fetch_with_fallback_def fetch_content_ordinals_com_def fetch_content_hiro_def
        http_get_def Let_def world_first_down_respond ordinals_com_url_def hiro_content_url_def
        collector0_def wait_for_rate_limit_def sleep_def status_ok_def)

section \<open>Properties of the content store\<close>

lemma write_bytes_twice:
  "write_bytes p c (write_bytes p c s) = (write_bytes p c s)\<lparr> file_writes := file_writes s @ [p, p] \<rparr>"
  by (simp add: write_bytes_def)

lemma write_bytes_fields [simp]:
  "disk (write_bytes p c s) = (disk s)(p \<mapsto> c)"
  "file_writes (write_bytes p c s) = file_writes s @ [p]"
  by (simp_all add: write_bytes_def)

lemma save_inscription_fst:
  "fst (save_inscription w insc c s) = fst (save_inscription w insc c s')"
  by (simp add: save_inscription_def Let_def)

lemma save_inscription_snd:
  "snd (save_inscription w insc c s) = write_bytes (sv_local_path (fst (save_inscription w insc c s))) c s"
  by (simp add: save_inscription_def Let_def)

lemma save_inscription_hash:
  "sv_file_hash (fst (save_inscription w insc c s)) = take 16 (sha256_hexdigest w c)"
  by (simp add: save_inscription_def Let_def)

lemma save_transaction_Inr:
  assumes "save_transaction w t c s = Inr (r, s1)"
  shows "s1 = write_bytes (ar_local_path r) c s"
    and "save_transaction w t c s' = Inr (r, write_bytes (ar_local_path r) c s')"
    and "ar_file_hash r = take 16 (sha256_hexdigest w c)"
  using assms
  by (auto simp add: save_transaction_def Let_def split: sum.splits option.splits)

lemma str_nat_digit: "n < 10 \<Longrightarrow> str_nat n = [''0123456789'' ! n]"
  by (simp add: str_nat.simps)

lemma save_ex:
  "save_inscription world_ok insc_a ''X'' s =
    (\<lparr> sv_id = ''a'', sv_number = 1, sv_content_type = ''image/png'', sv_content_length = 1,
       sv_file_hash = ''4b68ab3847feda7d'',
       sv_local_path = ''/Volumes/Virtual Server/Projects/blockchain-research/data/ordinals/image/1_4b68ab3847feda7d.png'' \<rparr>,
     write_bytes ''/Volumes/Virtual Server/Projects/blockchain-research/data/ordinals/image/1_4b68ab3847feda7d.png'' ''X'' s)"
  by (simp add: save_inscription_def Let_def world_ok_def insc_a_def get_default_def
      ext_map_ordinals_def category_of_def split_head_def path_join_def ORDINALS_DIR_def
      DATA_DIR_def str_int_def str_nat_digit)

lemma save_ex_b:
  "save_inscription world_ok insc_b ''X'' s =
    (\<lparr> sv_id = ''b'', sv_number = 2, sv_content_type = ''image/png'', sv_content_length = 1,
       sv_file_hash = ''4b68ab3847feda7d'',
       sv_local_path = ''/Volumes/Virtual Server/Projects/blockchain-research/data/ordinals/image/2_4b68ab3847feda7d.png'' \<rparr>,
     write_bytes ''/Volumes/Virtual Server/Projects/blockchain-research/data/ordinals/image/2_4b68ab3847feda7d.png'' ''X'' s)"
  by (simp add: save_inscription_def Let_def world_ok_def insc_b_def get_default_def
      ext_map_ordinals_def category_of_def split_head_def path_join_def ORDINALS_DIR_def
      DATA_DIR_def str_int_def str_nat_digit)

lemma save_tx_ex:
  "save_transaction world_ok tx_small ''X'' s =
    Inr (\<lparr> ar_id = ''t2'', ar_chain = ''arweave'', ar_block_height = 5, ar_timestamp = Some 6,
           ar_content_type = ''image/png'', ar_content_length = 1,
           ar_file_hash = ''4b68ab3847feda7d'',
           ar_local_path = ''/Volumes/Virtual Server/Projects/blockchain-research/data/arweave/image/5_4b68ab3847feda7d.png'',
           ar_tags = [(''Content-Type'', ''image/png'')], ar_app_name = None \<rparr>,
     write_bytes ''/Volumes/Virtual Server/Projects/blockchain-research/data/arweave/image/5_4b68ab3847feda7d.png'' ''X'' s)"
  by (simp add: save_transaction_def Let_def world_ok_def tx_small_def get_default_def
      ext_map_arweave_def category_of_def split_head_def path_join_def ARWEAVE_DIR_def
      DATA_DIR_def str_int_def str_nat_digit tags_dict_def dict_get_def data_type_default_def
      block_entry_def)

text \<open>
  C2, as stated, fails: \<open>save_inscription\<close> has no test for an existing file.  Two
  calls with the same inscription and the same bytes write the same path twice;
  and two inscriptions with the same bytes but different numbers get different
  paths.
\<close>

theorem store_twice_counterexample:
  "file_writes (snd (save_inscription world_ok insc_a ''X''
                  (snd (save_inscription world_ok insc_a ''X'' env0))))
     = [''/Volumes/Virtual Server/Projects/blockchain-research/data/ordinals/image/1_4b68ab3847feda7d.png'',
        ''/Volumes/Virtual Server/Projects/blockchain-research/data/ordinals/image/1_4b68ab3847feda7d.png'']
   \<and> sv_local_path (fst (save_inscription world_ok insc_a ''X'' env0))
     \<noteq> sv_local_path (fst (save_inscription world_ok insc_b ''X''
                            (snd (save_inscription world_ok insc_a ''X'' env0))))"
  by (simp add: save_ex save_ex_b env0_def)

text \<open>
  C2, amended: two calls of \<open>save_inscription\<close> (or of \<open>save_transaction\<close>, when it
  returns) with the same metadata and the same content return the same record,
  hence the same \<open>file_hash\<close> and \<open>local_path\<close>; every call writes the destination
  file, so the file is written twice, the second write leaving the disk as the
  first left it.  The \<open>file_hash\<close> depends on the content alone.
\<close>

theorem store_twice:
  "fst (save_inscription w insc c (snd (save_inscription w insc c s)))
      = fst (save_inscription w insc c s)
   \<and> disk (snd (save_inscription w insc c (snd (save_inscription w insc c s))))
      = disk (snd (save_inscription w insc c s))
   \<and> file_writes (snd (save_inscription w insc c (snd (save_inscription w insc c s))))
      = file_writes s @ [sv_local_path (fst (save_inscription w insc c s)),
                         sv_local_path (fst (save_inscription w insc c s))]
   \<and> sv_file_hash (fst (save_inscription w insc' c s')) = sv_file_hash (fst (save_inscription w insc c s))
   \<and> (\<forall>r1 e1. save_transaction w t c e = Inr (r1, e1) \<longrightarrow>
        (\<exists>e2. save_transaction w t c e1 = Inr (r1, e2)
            \<and> disk e2 = disk e1
            \<and> file_writes e2 = file_writes e @ [ar_local_path r1, ar_local_path r1]))"
proof -
  let ?r = "fst (save_inscription w insc c s)"
  let ?s1 = "snd (save_inscription w insc c s)"
  have a: "fst (save_inscription w insc c ?s1) = ?r" by (rule save_inscription_fst)
  have s1: "?s1 = write_bytes (sv_local_path ?r) c s" by (rule save_inscription_snd)
  have s2: "snd (save_inscription w insc c ?s1) = write_bytes (sv_local_path ?r) c ?s1"
    using save_inscription_snd [of w insc c ?s1] a by simp
  have b: "disk (snd (save_inscription w insc c ?s1)) = disk ?s1"
    unfolding s2 by (subst (1 2) s1) simp
  have c: "file_writes (snd (save_inscription w insc c ?s1))
      = file_writes s @ [sv_local_path ?r, sv_local_path ?r]"
    unfolding s2 by (subst s1) simp
  have d: "sv_file_hash (fst (save_inscription w insc' c s')) = sv_file_hash ?r"
    by (simp add: save_inscription_hash)
  have e: "\<forall>r1 e1. save_transaction w t c e = Inr (r1, e1) \<longrightarrow>
        (\<exists>e2. save_transaction w t c e1 = Inr (r1, e2)
            \<and> disk e2 = disk e1
            \<and> file_writes e2 = file_writes e @ [ar_local_path r1, ar_local_path r1])"
  proof (intro allI impI)
    fix r1 e1 assume h: "save_transaction w t c e = Inr (r1, e1)"
    from save_transaction_Inr(1) [OF h] have e1: "e1 = write_bytes (ar_local_path r1) c e" .
    from save_transaction_Inr(2) [OF h, of e1]
    have "save_transaction w t c e1 = Inr (r1, write_bytes (ar_local_path r1) c e1)" .
    moreover have "disk (write_bytes (ar_local_path r1) c e1) = disk e1"
      by (simp add: e1)
    moreover have "file_writes (write_bytes (ar_local_path r1) c e1)
        = file_writes e @ [ar_local_path r1, ar_local_path r1]"
      by (simp add: e1)
    ultimately show "\<exists>e2. save_transaction w t c e1 = Inr (r1, e2)
            \<and> disk e2 = disk e1
            \<and> file_writes e2 = file_writes e @ [ar_local_path r1, ar_local_path r1]"
      by blast
  qed
  from a b c d e show ?thesis by blast
qed


theorem store_twice_witness:
  "save_transaction world_ok tx_small ''X'' env0
     = Inr (fst (projr (save_transaction world_ok tx_small ''X'' env0)),
            snd (projr (save_transaction world_ok tx_small ''X'' env0)))
   \<and> (\<exists>e2. save_transaction world_ok tx_small ''X''
               (snd (projr (save_transaction world_ok tx_small ''X'' env0)))
             = Inr (fst (projr (save_transaction world_ok tx_small ''X'' env0)), e2)
          \<and> file_writes e2 =
             [''/Volumes/Virtual Server/Projects/blockchain-research/data/arweave/image/5_4b68ab3847feda7d.png'',
              ''/Volumes/Virtual Server/Projects/blockchain-research/data/arweave/image/5_4b68ab3847feda7d.png''])"
proof -
  let ?r = "fst (projr (save_transaction world_ok tx_small ''X'' env0))"
  let ?e1 = "snd (projr (save_transaction world_ok tx_small ''X'' env0))"
  have h: "save_transaction world_ok tx_small ''X'' env0 = Inr (?r, ?e1)"
    by (simp add: save_tx_ex)
  from store_twice [of world_ok insc_a "''X''" env0 insc_b env0 tx_small env0] h
  obtain e2 where "save_transaction world_ok tx_small ''X'' ?e1 = Inr (?r, e2)"
    and "file_writes e2 = file_writes env0 @ [ar_local_path ?r, ar_local_path ?r]"
    by blast
  then show ?thesis using h by (auto simp add: save_tx_ex env0_def)
qed


section \<open>Properties of \<open>ArweaveCollector.collect_by_type\<close>\<close>

lemma oversized_collect_tx:
  "oversized t \<Longrightarrow> collect_tx w t recs s
      = (case tx_id t of None \<Rightarrow> Caught KeyError | Some i \<Rightarrow> Continued, recs, s)"
  by (auto simp add: oversized_def collect_tx_def Let_def
        split: entry.splits declared_size.splits option.splits)

lemma collect_txs_skip:
  "oversized t \<Longrightarrow> tx_id t \<noteq> None \<Longrightarrow>
     collect_txs w target (pre @ t # post) recs s = collect_txs w target (pre @ post) recs s"
proof (induction pre arbitrary: recs s)
  case Nil
  then show ?case by (auto simp add: oversized_collect_tx)
next
  case (Cons a pre)
  then show ?case by (simp add: split_beta Let_def)
qed

text \<open>
  C7, amended: a transaction whose declared size is above 1,000,000 is skipped
  before any content fetch.  The loop body leaves the request log, the disk, the
  clock and \<open>records\<close> as they were, and (when the transaction has an id, so that
  the skip message can be printed) the whole loop runs as if the transaction were
  not in the list.  Nothing is emitted for the transaction: it has no entry in the
  returned list.
\<close>

theorem oversized_skipped:
  assumes "oversized t"
  shows "snd (collect_tx w t recs s) = (recs, s)
       \<and> (tx_id t \<noteq> None \<longrightarrow>
            collect_txs w target (pre @ t # post) recs s = collect_txs w target (pre @ post) recs s)"
  using assms by (simp add: oversized_collect_tx collect_txs_skip)

theorem oversized_skipped_witness:
  "oversized tx_big \<and> tx_id tx_big \<noteq> None
   \<and> snd (collect_tx world_ok tx_big [] env0) = ([], env0)
   \<and> collect_txs world_ok 2 ([] @ tx_big # [tx_small]) [] env0
       = collect_txs world_ok 2 ([] @ [tx_small]) [] env0"
proof -
  have o: "oversized tx_big" by (simp add: oversized_def tx_big_def)
  have i: "tx_id tx_big \<noteq> None" by (simp add: tx_big_def)
  from oversized_skipped [OF o, of world_ok "[]" env0 2 "[]" "[tx_small]"] o i
  show ?thesis by blast
qed

text \<open>
  C7, as stated, fails: for a search that finds one transaction of two million
  bytes, \<open>collect_by_type\<close> sends the search request only and returns the empty
  list; no outcome stands for the skipped transaction.
\<close>

theorem oversized_no_outcome_counterexample:
  "oversized tx_big
   \<and> fst (collect_by_type world_ok ''image/png'' 1 env0) = []
   \<and> map snd (requests (snd (collect_by_type world_ok ''image/png'' 1 env0))) = [graphql_endpoint]"
  by (simp add: collect_by_type_def search_by_content_type_def Let_def world_ok_def slice_to_def
        collect_tx_def oversized_def tx_big_def env0_def)

section \<open>Properties of the overnight run\<close>

lemma world_ok_simps [simp]:
  "respond world_ok n url = Response 200 ''X''"
  "latency world_ok n url = 0"
  "hiro_listing world_ok n m off lm = (if off = 0 then Some [insc_a, insc_b] else Some [])"
  by (simp_all add: world_ok_def)

lemma collect_ex_requests:
  "map_option (\<lambda>(recs, s). (length recs, clock s, requests s))
     (collect (Suc (Suc (Suc 0))) world_ok ''image/png'' 20 (collector0\<lparr> apis := initial_apis \<rparr>))
   = Some (2, 1001,
       [(1000, ''https://api.hiro.so/ordinals/v1/inscriptions''),
        (1000, ''https://ordinals.com/content/a''),
        (1000 + 1/2, ''https://ordinals.com/content/b''),
        (1001, ''https://api.hiro.so/ordinals/v1/inscriptions'')])"
  by (simp add: collect_def fetch_inscriptions_hiro_def wait_for_rate_limit_def Let_def sleep_def
        collector0_def insc_a_def insc_b_def fetch_with_fallback_def fetch_content_ordinals_com_def
        http_get_def ordinals_com_url_def status_ok_def save_inscription_def write_bytes_def)

lemma bitcoin_loop_admitted:
  "bitcoin_loop fuel w cts oc s = Some (oc', s') \<Longrightarrow>
     end_time oc' = end_time oc
     \<and> (\<exists>new. admitted oc' = admitted oc @ new
            \<and> (\<forall>(t, m) \<in> set new. t < end_time oc)
            \<and> prefix (map snd new) (map fst cts))"
proof (induction cts arbitrary: oc s)
  case Nil
  then show ?case by simp
next
  case (Cons ct cts)
  obtain mime_type target where ct: "ct = (mime_type, target)" by (cases ct)
  show ?case
  proof (cases "should_continue oc s")
    case False
    with Cons.prems ct show ?thesis by simp
  next
    case True
    with Cons.prems ct obtain recs s1 where
      c: "collect fuel w mime_type target s = Some (recs, s1)"
      by (auto split: option.splits)
    let ?oc1 = "oc\<lparr> stats_bitcoin_ordinals := stats_bitcoin_ordinals oc + int (length recs),
                    stats_total_bytes :=
                      stats_total_bytes oc + sum_list (map sv_content_length recs),
                    admitted := admitted oc @ [(clock s, mime_type)] \<rparr>"
    from Cons.prems ct True c
    have rest: "bitcoin_loop fuel w cts ?oc1 (sleep 10 s1) = Some (oc', s')" by simp
    from Cons.IH [OF rest] obtain new where
      e: "end_time oc' = end_time oc"
      and n: "admitted oc' = admitted oc @ (clock s, mime_type) # new"
      and t: "\<forall>(t, m) \<in> set new. t < end_time oc"
      and p: "prefix (map snd new) (map fst cts)"
      by auto
    from True have now: "clock s < end_time oc" by (simp add: should_continue_def)
    have "admitted oc' = admitted oc @ ((clock s, mime_type) # new)
          \<and> (\<forall>(t, m) \<in> set ((clock s, mime_type) # new). t < end_time oc)
          \<and> prefix (map snd ((clock s, mime_type) # new)) (map fst (ct # cts))"
      using n t p now ct by simp
    with e show ?thesis by blast
  qed
qed

lemma overnight_run:
  "map_option (\<lambda>(oc, s). (admitted oc, stats_bitcoin_ordinals oc, clock s, requests s))
     (collect_bitcoin_ordinals (Suc (Suc (Suc 0))) world_ok overnight0 collector0)
   = Some ([(1000, ''image/png'')], 2, 1011,
       [(1000, ''https://api.hiro.so/ordinals/v1/inscriptions''),
        (1000, ''https://ordinals.com/content/a''),
        (1000 + 1/2, ''https://ordinals.com/content/b''),
        (1001, ''https://api.hiro.so/ordinals/v1/inscriptions'')])"
proof -
  from collect_ex_requests obtain recs s1 where
    c: "collect (Suc (Suc (Suc 0))) world_ok ''image/png'' 20 (collector0\<lparr> apis := initial_apis \<rparr>)
          = Some (recs, s1)"
    and l: "length recs = 2" and k: "clock s1 = 1001"
    and r: "requests s1 = [(1000, ''https://api.hiro.so/ordinals/v1/inscriptions''),
        (1000, ''https://ordinals.com/content/a''),
        (1000 + 1/2, ''https://ordinals.com/content/b''),
        (1001, ''https://api.hiro.so/ordinals/v1/inscriptions'')]"
    by (auto simp add: map_option_case split: option.splits)
  have s0: "should_continue overnight0 (collector0\<lparr> apis := initial_apis \<rparr>)"
    by (simp add: should_continue_def overnight0_def collector0_def)
  show ?thesis
    unfolding collect_bitcoin_ordinals_def bitcoin_content_types_def
    using s0 c l k r
    by (simp add: should_continue_def sleep_def overnight0_def collector0_def)
qed

text \<open>
  C8, as stated, fails: with a deadline a quarter of a second after the start,
  the batch \<open>image/png\<close> is admitted in time, and the content of its second
  inscription is requested half a second after the start, after the deadline.
\<close>

theorem deadline_item_counterexample:
  "collect_bitcoin_ordinals (Suc (Suc (Suc 0))) world_ok overnight0 collector0 \<noteq> None
   \<and> (1000 + 1/2, ordinals_com_url ''b'')
       \<in> set (requests (snd (the (collect_bitcoin_ordinals (Suc (Suc (Suc 0))) world_ok
                  overnight0 collector0))))
   \<and> \<not> (1000 + 1/2 < end_time overnight0)"
  using overnight_run
  by (auto simp add: map_option_case ordinals_com_url_def overnight0_def split: option.splits)


text \<open>
  C8, amended: the deadline is tested once before each content type.  Every call
  of \<open>collector.collect\<close> that \<open>collect_bitcoin_ordinals\<close> makes is made strictly
  before \<open>end_time\<close>, and the content types collected are an initial segment of
  the declared list: after the first test that finds the deadline passed, nothing
  more is started.  Inside a call of \<open>collect\<close> the deadline is not consulted.
\<close>

theorem deadline_admission:
  assumes "collect_bitcoin_ordinals fuel w oc s = Some (oc', s')"
  shows "end_time oc' = end_time oc
     \<and> (\<exists>new. admitted oc' = admitted oc @ new
            \<and> (\<forall>(t, m) \<in> set new. t < end_time oc)
            \<and> prefix (map snd new) (map fst bitcoin_content_types))"
  using assms unfolding collect_bitcoin_ordinals_def by (rule bitcoin_loop_admitted)

theorem deadline_admission_witness:
  "collect_bitcoin_ordinals (Suc (Suc (Suc 0))) world_ok overnight0 collector0
     = Some (the (collect_bitcoin_ordinals (Suc (Suc (Suc 0))) world_ok overnight0 collector0))
   \<and> admitted (fst (the (collect_bitcoin_ordinals (Suc (Suc (Suc 0))) world_ok
                   overnight0 collector0))) = [(1000, ''image/png'')]
   \<and> (1000 :: real) < end_time overnight0"
proof -
  let ?run = "collect_bitcoin_ordinals (Suc (Suc (Suc 0))) world_ok overnight0 collector0"
  from overnight_run obtain oc' s' where run: "?run = Some (oc', s')"
    and a: "admitted oc' = [(1000, ''image/png'')]"
    by (auto simp add: map_option_case split: option.splits)
  from deadline_admission [OF run] obtain new where
    "admitted oc' = admitted overnight0 @ new" and "\<forall>(t, m) \<in> set new. t < end_time overnight0"
    by blast
  with a have "(1000 :: real) < end_time overnight0"
    by (auto simp add: overnight0_def)
  with run a show ?thesis by simp
qed

end
